theory Spec2Isabelle
  imports Complex_Main
begin

section \<open>JavaScript values of the Calory Diary script\<close>

text \<open>
  The automation script (Google Apps Script, JavaScript) reads spreadsheet cells,
  computes with JavaScript numbers and writes cells back. The embedding keeps the
  value kinds that \<^verbatim>\<open>getValue()\<close> and \<^verbatim>\<open>getValues()\<close> return: text, number, boolean
  and date.

  Numbers are exact rationals together with \<^verbatim>\<open>NaN\<close>. The rounding of IEEE doubles,
  the two infinities and the sign of zero are not represented: arithmetic on finite
  values is exact.
\<close>

datatype jsnum = NaN | Num rat

text \<open>\<^verbatim>\<open>ToBoolean\<close> on a number: \<^verbatim>\<open>!x\<close> holds for \<^verbatim>\<open>NaN\<close> and for zero.\<close>

fun truthy :: "jsnum \<Rightarrow> bool" where
  "truthy NaN = False"
| "truthy (Num q) = (q \<noteq> 0)"

fun jsAdd :: "jsnum \<Rightarrow> jsnum \<Rightarrow> jsnum" where
  "jsAdd (Num a) (Num b) = Num (a + b)"
| "jsAdd _ _ = NaN"

fun jsSub :: "jsnum \<Rightarrow> jsnum \<Rightarrow> jsnum" where
  "jsSub (Num a) (Num b) = Num (a - b)"
| "jsSub _ _ = NaN"

fun jsMul :: "jsnum \<Rightarrow> jsnum \<Rightarrow> jsnum" where
  "jsMul (Num a) (Num b) = Num (a * b)"
| "jsMul _ _ = NaN"

text \<open>The comparison \<^verbatim>\<open>x >= 0\<close>: false when \<^verbatim>\<open>x\<close> is \<^verbatim>\<open>NaN\<close>.\<close>

fun geZero :: "jsnum \<Rightarrow> bool" where
  "geZero NaN = False"
| "geZero (Num q) = (0 \<le> q)"

text \<open>The idiom \<^verbatim>\<open>x || 0\<close> on a number.\<close>

definition orZero :: "jsnum \<Rightarrow> jsnum" where
  "orZero x = (if truthy x then x else Num 0)"

text \<open>\<^verbatim>\<open>Math.round\<close>: the integer nearest to the argument, a tie going towards
  plus infinity, that is \<open>\<lfloor>x + 1/2\<rfloor>\<close>.\<close>

fun mathRound :: "jsnum \<Rightarrow> jsnum" where
  "mathRound NaN = NaN"
| "mathRound (Num q) = Num (of_int \<lfloor>q + 1 / 2\<rfloor>)"

datatype cell = Str string | Number jsnum | Bool bool | DateV int

text \<open>A date cell carries its instant in milliseconds since the epoch. An empty cell
  reads as the empty text \<^verbatim>\<open>""\<close>. \<^verbatim>\<open>ToBoolean\<close> on a cell value:\<close>

fun cellTruthy :: "cell \<Rightarrow> bool" where
  "cellTruthy (Str s) = (s \<noteq> [])"
| "cellTruthy (Number n) = truthy n"
| "cellTruthy (Bool b) = b"
| "cellTruthy (DateV t) = True"

subsection \<open>Text\<close>

definition lowerChar :: "char \<Rightarrow> char" where
  "lowerChar c =
     (case map_of (zip ''ABCDEFGHIJKLMNOPQRSTUVWXYZ'' ''abcdefghijklmnopqrstuvwxyz'') c of
        Some l \<Rightarrow> l
      | None \<Rightarrow> c)"

definition toLowerCase :: "string \<Rightarrow> string" where
  "toLowerCase s = map lowerChar s"

text \<open>\<^verbatim>\<open>s.includes(sub)\<close>: \<open>sub\<close> occurs in \<open>s\<close> as a contiguous piece.\<close>

fun strIncludes :: "string \<Rightarrow> string \<Rightarrow> bool" where
  "strIncludes [] sub = (sub = [])"
| "strIncludes (c # cs) sub = (take (length sub) (c # cs) = sub \<or> strIncludes cs sub)"

text \<open>\<^verbatim>\<open>s.split(' ')[0]\<close>: the text before the first space, all of it when there is none.\<close>

definition firstToken :: "string \<Rightarrow> string" where
  "firstToken s = takeWhile (\<lambda>c. c \<noteq> CHR '' '') s"

subsection \<open>parseFloat\<close>

text \<open>
  \<^verbatim>\<open>parseFloat\<close> skips leading white space and reads the longest prefix that is a decimal
  literal: an optional sign, digits with an optional fraction (or a fraction alone), and
  an optional exponent. Whatever follows is ignored; without any digit the result is
  \<^verbatim>\<open>NaN\<close>. The literal \<^verbatim>\<open>Infinity\<close> is read as having no digit, since the model has no
  infinities; white space is the ASCII white space.
\<close>

definition isSpace :: "char \<Rightarrow> bool" where
  "isSpace c = (c \<in> set [CHR '' '', CHR 0x09, CHR 0x0A, CHR 0x0B, CHR 0x0C, CHR 0x0D])"

definition isDigit :: "char \<Rightarrow> bool" where
  "isDigit c = (c \<in> set ''0123456789'')"

definition digitVal :: "char \<Rightarrow> nat" where
  "digitVal c = of_char c - 48"

definition digitsToNat :: "string \<Rightarrow> nat" where
  "digitsToNat ds = foldl (\<lambda>a c. 10 * a + digitVal c) 0 ds"

text \<open>The sign in front of a numeral: whether it is a minus, and the rest.\<close>

fun signPart :: "string \<Rightarrow> bool \<times> string" where
  "signPart [] = (False, [])"
| "signPart (c # cs) =
     (if c = CHR ''-'' then (True, cs) else if c = CHR ''+'' then (False, cs)
      else (False, c # cs))"

text \<open>The exponent after the mantissa: \<^verbatim>\<open>e\<close> or \<^verbatim>\<open>E\<close>, an optional sign and at least one
  digit; anything else is no exponent.\<close>

fun exponentPart :: "string \<Rightarrow> int" where
  "exponentPart [] = 0"
| "exponentPart (c # cs) =
     (if c = CHR ''e'' \<or> c = CHR ''E'' then
        (let (neg, r) = signPart cs; ds = takeWhile isDigit r
         in if ds = [] then 0
            else if neg then - int (digitsToNat ds) else int (digitsToNat ds))
      else 0)"

definition scale10 :: "rat \<Rightarrow> int \<Rightarrow> rat" where
  "scale10 m e = (if 0 \<le> e then m * 10 ^ nat e else m / 10 ^ nat (- e))"

definition parseFloat :: "string \<Rightarrow> jsnum" where
  "parseFloat s =
     (let (neg, s2) = signPart (dropWhile isSpace s);
          ip = takeWhile isDigit s2;
          r1 = dropWhile isDigit s2;
          fp = (case r1 of [] \<Rightarrow> [] | c # r \<Rightarrow> if c = CHR ''.'' then takeWhile isDigit r else []);
          r2 = (case r1 of [] \<Rightarrow> [] | c # r \<Rightarrow> if c = CHR ''.'' then dropWhile isDigit r else r1)
      in if ip = [] \<and> fp = [] then NaN
         else
           (let mant = of_nat (digitsToNat ip) + of_nat (digitsToNat fp) / 10 ^ length fp;
                v = scale10 mant (exponentPart r2)
            in Num (if neg then - v else v)))"

subsection \<open>The host environment\<close>

text \<open>
  What the script obtains from the Apps Script runtime and the JavaScript engine, and
  what the exact-number model cannot compute, is a parameter:
  the UTC offset in milliseconds of \<^verbatim>\<open>Session.getScriptTimeZone()\<close>, the instant returned
  by \<^verbatim>\<open>new Date()\<close>, the \<^verbatim>\<open>Date\<close> constructor on free-form text (\<open>None\<close> for an invalid
  date), the text of a positive number that is not an integer below \<open>10\<^sup>2\<^sup>1\<close>, the text of
  a date, and whether \<^verbatim>\<open>SpreadsheetApp.getUi()\<close> is available.
\<close>

record host =
  scriptTimeZone :: int
  currentTime :: int
  dateParse :: "string \<Rightarrow> int option"
  fractionText :: "rat \<Rightarrow> string"
  dateText :: "int \<Rightarrow> string"
  uiAvailable :: bool

definition digitChar :: "nat \<Rightarrow> char" where
  "digitChar d = char_of (48 + d)"

fun natToString :: "nat \<Rightarrow> string" where
  "natToString n =
     (if n < 10 then [digitChar n] else natToString (n div 10) @ [digitChar (n mod 10)])"

declare natToString.simps [simp del]

text \<open>\<^verbatim>\<open>Number::toString\<close>: a negative number is a minus sign followed by the text of its
  magnitude; an integer below \<open>10\<^sup>2\<^sup>1\<close> is its decimal digits.\<close>

definition magnitudeText :: "host \<Rightarrow> rat \<Rightarrow> string" where
  "magnitudeText h q =
     (if q = of_int \<lfloor>q\<rfloor> \<and> q < 10 ^ 21 then natToString (nat \<lfloor>q\<rfloor>) else fractionText h q)"

fun numberToString :: "host \<Rightarrow> jsnum \<Rightarrow> string" where
  "numberToString h NaN = ''NaN''"
| "numberToString h (Num q) =
     (if q < 0 then CHR ''-'' # magnitudeText h (- q) else magnitudeText h q)"

fun cellToString :: "host \<Rightarrow> cell \<Rightarrow> string" where
  "cellToString h (Str s) = s"
| "cellToString h (Number n) = numberToString h n"
| "cellToString h (Bool b) = (if b then ''true'' else ''false'')"
| "cellToString h (DateV t) = dateText h t"

text \<open>
  \<^verbatim>\<open>parseFloat(v)\<close> on a cell value converts the value to text first and parses the
  text. For a number no text is formed: the text of a number parses back to that number.
\<close>

fun parseFloatCell :: "host \<Rightarrow> cell \<Rightarrow> jsnum" where
  "parseFloatCell h (Number n) = n"
| "parseFloatCell h c = parseFloat (cellToString h c)"

subsection \<open>Dates and date keys\<close>

text \<open>
  A date key is the text \<^verbatim>\<open>yyyy-MM-dd\<close> of a calendar day. The model identifies the key
  with the day it names, counted from 1970-01-01 (day 0): formatting an instant in the
  script's time zone gives the day that the shifted instant falls on, and
  \<^verbatim>\<open>new Date(dateKey)\<close>, the constructor on a date-only ISO text, gives midnight UTC of
  that day.
\<close>

definition msPerDay :: int where
  "msPerDay = 86400000"

definition formatDate :: "host \<Rightarrow> int \<Rightarrow> int" where
  "formatDate h t = (t + scriptTimeZone h) div msPerDay"

definition dateOfKey :: "int \<Rightarrow> int" where
  "dateOfKey k = k * msPerDay"

text \<open>The day number of a civil date of the proleptic Gregorian calendar, for naming
  concrete days.\<close>

definition civilDay :: "int \<Rightarrow> int \<Rightarrow> int \<Rightarrow> int" where
  "civilDay y m d =
     (let y' = (if m \<le> 2 then y - 1 else y);
          era = y' div 400;
          yoe = y' - era * 400;
          doy = (153 * (if 2 < m then m - 3 else m + 9) + 2) div 5 + d - 1;
          doe = yoe * 365 + yoe div 4 - yoe div 100 + doy
      in era * 146097 + doe - 719468)"

text \<open>\<^verbatim>\<open>new Date(v)\<close> on a cell value; \<open>None\<close> is the invalid date. A number is a
  time value, cut to an integer and valid up to \<open>8.64 \<times> 10\<^sup>1\<^sup>5\<close>.\<close>

fun newDate :: "host \<Rightarrow> cell \<Rightarrow> int option" where
  "newDate h (DateV t) = Some t"
| "newDate h (Str s) = dateParse h s"
| "newDate h (Number NaN) = None"
| "newDate h (Number (Num q)) =
     (if \<bar>q\<bar> \<le> 8640000000000000 then Some (if 0 \<le> q then \<lfloor>q\<rfloor> else \<lceil>q\<rceil>) else None)"
| "newDate h (Bool b) = Some (if b then 1 else 0)"

section \<open>The spreadsheet\<close>

datatype marker = Unmarked | Green | Red

text \<open>The Dashboard sheet: the personal parameters H2 to H7 and the daily tracker A2 to
  D2 with the colour of its status cell.\<close>

record dashboard =
  genderCell :: cell
  weightCell :: cell
  heightCell :: cell
  ageCell :: cell
  activityMultiplierCell :: cell
  goalOffsetCell :: cell
  dateInputCell :: cell
  totalConsumedCell :: cell
  maxLimitCell :: cell
  statusCell :: cell
  statusMarker :: marker

text \<open>The Log sheet: the rows of its data range, the header row first. Only the date
  (column A) and the calories (column E) are read.\<close>

record log_row =
  dateValue :: cell
  timeValue :: cell
  mealType :: cell
  description :: cell
  caloriesValue :: cell

text \<open>
  The Daily Summary sheet: the rows 1 to \<^verbatim>\<open>getLastRow()\<close>, the header row first when the
  sheet has been set up. Column A of a row below the header holds a date (its instant)
  or is empty (\<open>None\<close>); the label in column A of the header row is never read and is
  \<open>None\<close> too. The colour of the status cell is part of the row.
\<close>

record summary_row =
  summaryDate :: "int option"
  totalIn :: cell
  maxLimit :: cell
  status :: cell
  statusColor :: marker

record spreadsheet =
  dashboardSheet :: "dashboard option"
  logSheet :: "log_row list option"
  summarySheet :: "summary_row list option"

text \<open>The errors thrown: the four of the script, the \<^verbatim>\<open>TypeError\<close> of \<^verbatim>\<open>Object.keys\<close> and
  \<^verbatim>\<open>Object.entries\<close> on \<^verbatim>\<open>undefined\<close>, and the exception of \<^verbatim>\<open>getUi()\<close> where no user
  interface is attached.\<close>

datatype error =
  DashboardNotFound | MissingMetrics | LogNotFound | SummaryNotFound | TypeError | NoUi

section \<open>getMaxCaloriesFromDashboard\<close>

text \<open>
  The number in the activity cell. The script takes the text of the cell; when it holds
  an opening parenthesis (a dropdown label such as \<^verbatim>\<open>1.55 (Moderate)\<close>) it parses the
  token before the first space, otherwise the whole text. For a number no text is formed:
  the text of a number holds no parenthesis and parses back to the number.
\<close>

fun activityMultiplierOf :: "host \<Rightarrow> cell \<Rightarrow> jsnum" where
  "activityMultiplierOf h (Number n) = n"
| "activityMultiplierOf h c =
     (let activityText = cellToString h c
      in if CHR ''('' \<in> set activityText then parseFloat (firstToken activityText)
         else parseFloat activityText)"

text \<open>The goal offset: the direct numeric input falls back to 0, the label does not.\<close>

fun goalOffsetOf :: "host \<Rightarrow> cell \<Rightarrow> jsnum" where
  "goalOffsetOf h (Number n) = orZero n"
| "goalOffsetOf h c =
     (let goalText = cellToString h c
      in if CHR ''('' \<in> set goalText then parseFloat (firstToken goalText)
         else orZero (parseFloat goalText))"

definition genderIsMale :: "host \<Rightarrow> dashboard \<Rightarrow> bool" where
  "genderIsMale h d =
     (let gender = toLowerCase (cellToString h (genderCell d))
      in strIncludes gender ''male'' \<or> gender = ''m'')"

definition bmrOf :: "host \<Rightarrow> dashboard \<Rightarrow> jsnum" where
  "bmrOf h d =
     (let weight = parseFloatCell h (weightCell d);
          height = parseFloatCell h (heightCell d);
          age = parseFloatCell h (ageCell d);
          base = jsSub (jsAdd (jsMul (Num 10) weight) (jsMul (Num 6.25) height))
                       (jsMul (Num 5) age)
      in if genderIsMale h d then jsAdd base (Num 5) else jsSub base (Num 161))"

definition tdeeOf :: "host \<Rightarrow> dashboard \<Rightarrow> jsnum" where
  "tdeeOf h d = jsMul (bmrOf h d) (activityMultiplierOf h (activityMultiplierCell d))"

definition maxCaloriesOf :: "host \<Rightarrow> dashboard \<Rightarrow> error + jsnum" where
  "maxCaloriesOf h d =
     (let weight = parseFloatCell h (weightCell d);
          height = parseFloatCell h (heightCell d);
          age = parseFloatCell h (ageCell d);
          activityMultiplier = activityMultiplierOf h (activityMultiplierCell d);
          goalOffset = goalOffsetOf h (goalOffsetCell d)
      in if \<not> truthy weight \<or> \<not> truthy height \<or> \<not> truthy age \<or> \<not> truthy activityMultiplier
         then Inl MissingMetrics
         else Inr (mathRound (jsAdd (tdeeOf h d) goalOffset)))"

definition getMaxCaloriesFromDashboard :: "host \<Rightarrow> spreadsheet \<Rightarrow> error + jsnum" where
  "getMaxCaloriesFromDashboard h ss =
     (case dashboardSheet ss of
        None \<Rightarrow> Inl DashboardNotFound
      | Some d \<Rightarrow> maxCaloriesOf h d)"

section \<open>computeDailyTotalsFromLog\<close>

text \<open>
  The totals object: its keys in insertion order with their values. Reading a missing
  key gives \<^verbatim>\<open>undefined\<close> (\<open>None\<close>); assigning to a present key keeps its place,
  assigning to a new key appends it.
\<close>

type_synonym totals = "(int \<times> jsnum) list"

fun assign :: "totals \<Rightarrow> int \<Rightarrow> jsnum \<Rightarrow> totals" where
  "assign [] k v = [(k, v)]"
| "assign ((k', v') # m) k v = (if k' = k then (k, v) # m else (k', v') # assign m k v)"

text \<open>The key under which a Log row is counted; \<open>None\<close> when the loop skips the row:
  the date is falsy, the calories are falsy and not the number 0, or the date is
  invalid.\<close>

definition entryKey :: "host \<Rightarrow> log_row \<Rightarrow> int option" where
  "entryKey h row =
     (if \<not> cellTruthy (dateValue row) \<or>
         (\<not> cellTruthy (caloriesValue row) \<and> caloriesValue row \<noteq> Number (Num 0))
      then None
      else map_option (formatDate h) (newDate h (dateValue row)))"

definition entryCalories :: "host \<Rightarrow> log_row \<Rightarrow> jsnum" where
  "entryCalories h row = orZero (parseFloatCell h (caloriesValue row))"

text \<open>One round of the loop: \<^verbatim>\<open>if (!m[k]) m[k] = 0; m[k] += calories\<close>. A sum with
  \<^verbatim>\<open>undefined\<close> is \<^verbatim>\<open>NaN\<close>.\<close>

definition addEntry :: "host \<Rightarrow> totals \<Rightarrow> log_row \<Rightarrow> totals" where
  "addEntry h m row =
     (case entryKey h row of
        None \<Rightarrow> m
      | Some dateKey \<Rightarrow>
          (let m1 = (if \<not> (case map_of m dateKey of None \<Rightarrow> False | Some v \<Rightarrow> truthy v)
                     then assign m dateKey (Num 0) else m)
           in assign m1 dateKey
                (jsAdd (case map_of m1 dateKey of None \<Rightarrow> NaN | Some v \<Rightarrow> v)
                       (entryCalories h row))))"

text \<open>The loop over the rows below the header, from the empty object.\<close>

definition aggregate :: "host \<Rightarrow> log_row list \<Rightarrow> totals" where
  "aggregate h entries = foldl (addEntry h) [] entries"

text \<open>
  The function returns \<^verbatim>\<open>undefined\<close> (\<open>None\<close>) when the data range has no row below the
  header: there the \<^verbatim>\<open>return\<close> statement ends at the line break that follows it, and the
  \<^verbatim>\<open>{}\<close> after the break is an empty block.
\<close>

definition computeDailyTotalsFromLog :: "host \<Rightarrow> spreadsheet \<Rightarrow> error + totals option" where
  "computeDailyTotalsFromLog h ss =
     (case logSheet ss of
        None \<Rightarrow> Inl LogNotFound
      | Some logData \<Rightarrow>
          if length logData \<le> 1 then Inr None
          else Inr (Some (aggregate h (tl logData))))"

section \<open>upsertDailySummary\<close>

text \<open>The row written for a date and its total, with the colour of its status cell.\<close>

definition rowData :: "host \<Rightarrow> jsnum \<Rightarrow> int \<Rightarrow> jsnum \<Rightarrow> summary_row" where
  "rowData h maxCalories dateKey totalCalories =
     (let remaining = jsSub maxCalories totalCalories;
          statusText =
            (if geZero remaining then ''Under Goal (+'' @ numberToString h remaining @ '')''
             else ''Over Goal ('' @ numberToString h remaining @ '')'')
      in \<lparr>summaryDate = Some (dateOfKey dateKey), totalIn = Number totalCalories,
          maxLimit = Number maxCalories, status = Str statusText,
          statusColor = (if geZero remaining then Green else Red)\<rparr>)"

text \<open>The map from date key to row number, built from the rows at index \<open>i\<close> onwards; a
  later row with the same key replaces an earlier one.\<close>

fun existingDatesFrom ::
  "host \<Rightarrow> nat \<Rightarrow> summary_row list \<Rightarrow> (int \<rightharpoonup> nat) \<Rightarrow> (int \<rightharpoonup> nat)" where
  "existingDatesFrom h i [] m = m"
| "existingDatesFrom h i (r # rs) m =
     existingDatesFrom h (Suc i) rs
       (case summaryDate r of
          None \<Rightarrow> m
        | Some existingDate \<Rightarrow> m(formatDate h existingDate \<mapsto> i + 1))"

definition existingDatesMap :: "host \<Rightarrow> summary_row list \<Rightarrow> (int \<rightharpoonup> nat)" where
  "existingDatesMap h existingData = existingDatesFrom h 1 (tl existingData) Map.empty"

text \<open>The loop over the entries of the totals object. A row number found in the map is
  at least 2; a new row goes to \<^verbatim>\<open>getLastRow() + 1\<close>, right after the rows.\<close>

fun upsertRows ::
  "host \<Rightarrow> jsnum \<Rightarrow> (int \<rightharpoonup> nat) \<Rightarrow> totals \<Rightarrow> summary_row list \<Rightarrow> summary_row list" where
  "upsertRows h maxCalories m [] rows = rows"
| "upsertRows h maxCalories m ((dateKey, totalCalories) # es) rows =
     (case m dateKey of
        Some rowNum \<Rightarrow>
          upsertRows h maxCalories m es
            (rows[rowNum - 1 := rowData h maxCalories dateKey totalCalories])
      | None \<Rightarrow>
          upsertRows h maxCalories m es
            (rows @ [rowData h maxCalories dateKey totalCalories]))"

definition upsertDailySummary ::
  "host \<Rightarrow> spreadsheet \<Rightarrow> totals option \<Rightarrow> jsnum \<Rightarrow> error + spreadsheet" where
  "upsertDailySummary h ss dailyTotalsMap maxCalories =
     (case summarySheet ss of
        None \<Rightarrow> Inl SummaryNotFound
      | Some existingData \<Rightarrow>
          (case dailyTotalsMap of
             None \<Rightarrow> Inl TypeError
           | Some entries \<Rightarrow>
               Inr (ss\<lparr>summarySheet :=
                        Some (upsertRows h maxCalories (existingDatesMap h existingData)
                                entries existingData)\<rparr>)))"

section \<open>updateDashboardTodayView\<close>

definition isTodayRow :: "host \<Rightarrow> summary_row \<Rightarrow> bool" where
  "isTodayRow h r =
     (case summaryDate r of
        None \<Rightarrow> False
      | Some rowDate \<Rightarrow> formatDate h rowDate = formatDate h (currentTime h))"

definition dateCell :: "summary_row \<Rightarrow> cell" where
  "dateCell r = (case summaryDate r of None \<Rightarrow> Str [] | Some t \<Rightarrow> DateV t)"

text \<open>An error inside the function is logged and not passed on; the call that can fail
  comes before the first write.\<close>

definition updateDashboardTodayView :: "host \<Rightarrow> spreadsheet \<Rightarrow> spreadsheet" where
  "updateDashboardTodayView h ss =
     (case dashboardSheet ss of
        None \<Rightarrow> ss
      | Some d \<Rightarrow>
          (case summarySheet ss of
             None \<Rightarrow> ss
           | Some summaryData \<Rightarrow>
               (case find (isTodayRow h) (tl summaryData) of
                  Some todayRow \<Rightarrow>
                    ss\<lparr>dashboardSheet := Some (d\<lparr>
                        dateInputCell := dateCell todayRow,
                        totalConsumedCell := totalIn todayRow,
                        maxLimitCell := maxLimit todayRow,
                        statusCell := status todayRow,
                        statusMarker :=
                          (if strIncludes (cellToString h (status todayRow)) ''Under Goal''
                           then Green else Red)\<rparr>)\<rparr>
                | None \<Rightarrow>
                    (case getMaxCaloriesFromDashboard h ss of
                       Inl e \<Rightarrow> ss
                     | Inr maxCalories \<Rightarrow>
                         ss\<lparr>dashboardSheet := Some (d\<lparr>
                             dateInputCell := DateV (currentTime h),
                             totalConsumedCell := Number (Num 0),
                             maxLimitCell := Number maxCalories,
                             statusCell :=
                               Str (''Under Goal (+'' @ numberToString h maxCalories @ '')''),
                             statusMarker := Green\<rparr>)\<rparr>))))"

section \<open>refreshCaloryDiary, onEdit and doGet\<close>

text \<open>The body of the \<^verbatim>\<open>try\<close> block of \<^verbatim>\<open>refreshCaloryDiary\<close>. The log line between the
  aggregation and the upsert takes \<^verbatim>\<open>Object.keys\<close> of the totals, which throws on
  \<^verbatim>\<open>undefined\<close>.\<close>

definition refreshSteps :: "host \<Rightarrow> spreadsheet \<Rightarrow> error + spreadsheet" where
  "refreshSteps h ss =
     (case getMaxCaloriesFromDashboard h ss of
        Inl e \<Rightarrow> Inl e
      | Inr maxCalories \<Rightarrow>
          (case computeDailyTotalsFromLog h ss of
             Inl e \<Rightarrow> Inl e
           | Inr dailyTotalsMap \<Rightarrow>
               (case dailyTotalsMap of
                  None \<Rightarrow> Inl TypeError
                | Some entries \<Rightarrow>
                    (case upsertDailySummary h ss dailyTotalsMap maxCalories of
                       Inl e \<Rightarrow> Inl e
                     | Inr ss' \<Rightarrow> Inr (updateDashboardTodayView h ss')))))"

text \<open>The \<^verbatim>\<open>catch\<close> block writes the error to the execution log and returns normally;
  every step that can throw does so before it writes to a sheet.\<close>

definition refreshCaloryDiary :: "host \<Rightarrow> spreadsheet \<Rightarrow> spreadsheet" where
  "refreshCaloryDiary h ss = (case refreshSteps h ss of Inl e \<Rightarrow> ss | Inr ss' \<Rightarrow> ss')"

text \<open>The branch of \<^verbatim>\<open>onEdit\<close> for an edit of a personal parameter.\<close>

definition recalculateAll :: "host \<Rightarrow> spreadsheet \<Rightarrow> error + spreadsheet" where
  "recalculateAll h ss =
     (case getMaxCaloriesFromDashboard h ss of
        Inl e \<Rightarrow> Inl e
      | Inr maxCalories \<Rightarrow>
          (case computeDailyTotalsFromLog h ss of
             Inl e \<Rightarrow> Inl e
           | Inr dailyTotalsMap \<Rightarrow>
               (case upsertDailySummary h ss dailyTotalsMap maxCalories of
                  Inl e \<Rightarrow> Inl e
                | Inr ss' \<Rightarrow> Inr (updateDashboardTodayView h ss'))))"

text \<open>The edit event: nothing, or the name of the edited sheet and the A1 notation of
  the edited range.\<close>

definition metricsRange :: "string list" where
  "metricsRange = [''H2'', ''H3'', ''H4'', ''H5'', ''H6'', ''H7'']"

definition onEdit :: "host \<Rightarrow> (string \<times> string) option \<Rightarrow> spreadsheet \<Rightarrow> spreadsheet" where
  "onEdit h e ss =
     (case e of
        None \<Rightarrow> ss
      | Some (sheetName, editedCell) \<Rightarrow>
          (let ss1 = (if sheetName = ''Log'' then refreshCaloryDiary h ss else ss)
           in if sheetName = ''Dashboard'' \<and> editedCell \<in> set metricsRange
              then (case recalculateAll h ss1 of Inl err \<Rightarrow> ss1 | Inr ss2 \<Rightarrow> ss2)
              else ss1))"

text \<open>The JSON reply of the web endpoint: its \<^verbatim>\<open>success\<close> flag, its \<^verbatim>\<open>message\<close> (or, for
  an unknown action, its \<^verbatim>\<open>error\<close> text) and, when \<^verbatim>\<open>doGet\<close> caught an error, that error
  in place of its text. The time stamp is left out.\<close>

record reply =
  success :: bool
  replyText :: string
  caught :: "error option"

text \<open>\<^verbatim>\<open>setTodaysDate\<close>: the today view, then an alert of the user interface.\<close>

definition setTodaysDate :: "host \<Rightarrow> spreadsheet \<Rightarrow> (error + unit) \<times> spreadsheet" where
  "setTodaysDate h ss =
     (if uiAvailable h then Inr () else Inl NoUi, updateDashboardTodayView h ss)"

definition doGet :: "host \<Rightarrow> string option \<Rightarrow> spreadsheet \<Rightarrow> reply \<times> spreadsheet" where
  "doGet h actionParameter ss =
     (let action = (case actionParameter of
                      None \<Rightarrow> ''refresh''
                    | Some a \<Rightarrow> if a = [] then ''refresh'' else a);
          name = toLowerCase action
      in if name \<in> set [''refresh'', ''refreshcalories'', ''refreshcalorydiary''] then
           (\<lparr>success = True, replyText = ''Calory diary refreshed successfully'',
             caught = None\<rparr>,
            refreshCaloryDiary h ss)
         else if name \<in> set [''settodaysdate'', ''updatedate''] then
           (case setTodaysDate h ss of
              (Inr u, ss') \<Rightarrow>
                (\<lparr>success = True, replyText = ''Dashboard updated with today's date'',
                  caught = None\<rparr>, ss')
            | (Inl err, ss') \<Rightarrow>
                (\<lparr>success = False, replyText = [], caught = Some err\<rparr>, ss'))
         else if name \<in> set [''status'', ''health''] then
           (\<lparr>success = True, replyText = ''Calory Diary automation is running'',
             caught = None\<rparr>, ss)
         else
           (\<lparr>success = False, replyText = ''Unknown action: '' @ action,
             caught = None\<rparr>, ss))"

section \<open>Reference notions and sample data\<close>

text \<open>Rounding to the nearest integer with a tie going away from zero.\<close>

definition roundHalfAwayFromZero :: "rat \<Rightarrow> int" where
  "roundHalfAwayFromZero x = (if 0 \<le> x then \<lfloor>x + 1 / 2\<rfloor> else - \<lfloor>- x + 1 / 2\<rfloor>)"

text \<open>Two hosts: the zone of the project's documentation, Asia/Jakarta (UTC+7), and a
  zone west of Greenwich (UTC-5). The clock stands at noon UTC of 2024-01-15.\<close>

definition utcPlus7 :: host where
  "utcPlus7 =
     \<lparr>scriptTimeZone = 25200000, currentTime = civilDay 2024 1 15 * msPerDay + 43200000,
      dateParse = (\<lambda>s. None), fractionText = (\<lambda>q. []), dateText = (\<lambda>t. []),
      uiAvailable = False\<rparr>"

definition utcMinus5 :: host where
  "utcMinus5 = utcPlus7\<lparr>scriptTimeZone := - 18000000\<rparr>"

text \<open>A Dashboard with the given cells H2 to H7 and an empty tracker.\<close>

definition personalParameters ::
  "cell \<Rightarrow> cell \<Rightarrow> cell \<Rightarrow> cell \<Rightarrow> cell \<Rightarrow> cell \<Rightarrow> dashboard" where
  "personalParameters gender weight height age activity goal =
     \<lparr>genderCell = gender, weightCell = weight, heightCell = height, ageCell = age,
      activityMultiplierCell = activity, goalOffsetCell = goal,
      dateInputCell = Str [], totalConsumedCell = Str [], maxLimitCell = Str [],
      statusCell = Str [], statusMarker = Unmarked\<rparr>"

text \<open>The parameters that \<^verbatim>\<open>addSampleData\<close> writes.\<close>

definition sampleParameters :: dashboard where
  "sampleParameters =
     personalParameters (Str ''Male'') (Number (Num 70)) (Number (Num 175)) (Number (Num 30))
       (Str ''1.55 (Moderate)'') (Str ''-500 (Weight Loss)'')"

definition logHeader :: log_row where
  "logHeader =
     \<lparr>dateValue = Str ''Date'', timeValue = Str ''Time'', mealType = Str ''Meal Type'',
      description = Str ''Description'', caloriesValue = Str ''Calories''\<rparr>"

definition logEntry :: "cell \<Rightarrow> cell \<Rightarrow> log_row" where
  "logEntry date calories =
     \<lparr>dateValue = date, timeValue = Str [], mealType = Str [], description = Str [],
      caloriesValue = calories\<rparr>"

definition summaryHeader :: summary_row where
  "summaryHeader =
     \<lparr>summaryDate = None, totalIn = Str ''Total In'', maxLimit = Str ''Max Limit'',
      status = Str ''Status'', statusColor = Unmarked\<rparr>"

text \<open>Midnight of a civil day on the wall clock of the host's zone: what a date typed
  into a cell reads as.\<close>

definition localMidnight :: "host \<Rightarrow> int \<Rightarrow> int \<Rightarrow> int \<Rightarrow> int" where
  "localMidnight h y m d = civilDay y m d * msPerDay - scriptTimeZone h"

text \<open>The sample book: the sample parameters, four entries on 2024-01-15 and a Daily
  Summary sheet holding its header row only.\<close>

definition sampleSpreadsheet :: "host \<Rightarrow> spreadsheet" where
  "sampleSpreadsheet h =
     \<lparr>dashboardSheet = Some sampleParameters,
      logSheet = Some [logHeader,
        logEntry (DateV (localMidnight h 2024 1 15)) (Number (Num 350)),
        logEntry (DateV (localMidnight h 2024 1 15)) (Number (Num 450)),
        logEntry (DateV (localMidnight h 2024 1 15)) (Number (Num 600)),
        logEntry (DateV (localMidnight h 2024 1 15)) (Number (Num 200))],
      summarySheet = Some [summaryHeader]\<rparr>"

definition femaleParameters :: dashboard where
  "femaleParameters =
     personalParameters (Str ''Female'') (Number (Num 60)) (Number (Num 165)) (Number (Num 30))
       (Number (Num 1.2)) (Number (Num 0))"

text \<open>Parameters, with the dropdown labels, whose energy expenditure plus offset is
  \<open>416.25 \<times> 1.2 - 500 = -0.5\<close>.\<close>

definition deficitParameters :: dashboard where
  "deficitParameters =
     personalParameters (Str ''Male'') (Number (Num 30.5)) (Number (Num 65)) (Number (Num 60))
       (Str ''1.2 (Sedentary)'') (Str ''-500 (Weight Loss)'')"

definition negativeWeightParameters :: dashboard where
  "negativeWeightParameters =
     personalParameters (Str ''Male'') (Number (Num (- 70))) (Number (Num 175))
       (Number (Num 30)) (Str ''1.55 (Moderate)'') (Str ''-500 (Weight Loss)'')"

definition blankWeightParameters :: dashboard where
  "blankWeightParameters =
     personalParameters (Str ''Male'') (Str []) (Number (Num 175))
       (Number (Num 30)) (Str ''1.55 (Moderate)'') (Str ''-500 (Weight Loss)'')"

text \<open>Variants of the sample book: without its Dashboard sheet, with a Log sheet of
  the header row only, and with a Log sheet of one entry of 300 on 2024-01-14 and one
  entry whose calories are the text \<^verbatim>\<open>abc\<close> on 2024-01-15.\<close>

definition noDashboardBook :: spreadsheet where
  "noDashboardBook = (sampleSpreadsheet utcPlus7)\<lparr>dashboardSheet := None\<rparr>"

definition emptyLogBook :: spreadsheet where
  "emptyLogBook = (sampleSpreadsheet utcPlus7)\<lparr>logSheet := Some [logHeader]\<rparr>"

definition textCaloriesBook :: spreadsheet where
  "textCaloriesBook =
     (sampleSpreadsheet utcPlus7)\<lparr>logSheet := Some [logHeader,
        logEntry (DateV (localMidnight utcPlus7 2024 1 14)) (Number (Num 300)),
        logEntry (DateV (localMidnight utcPlus7 2024 1 15)) (Str ''abc'')]\<rparr>"

text \<open>A book whose Daily Summary sheet holds rows of 2024-01-10 and of 2024-01-15, both
  computed against an earlier limit of 2000, while the Log sheet holds the entries of
  2024-01-15 only.\<close>

definition staleRow :: summary_row where
  "staleRow =
     \<lparr>summaryDate = Some (dateOfKey (civilDay 2024 1 10)), totalIn = Number (Num 1500),
      maxLimit = Number (Num 2000), status = Str ''Under Goal (+500)'',
      statusColor = Green\<rparr>"

definition staleBook :: spreadsheet where
  "staleBook =
     (sampleSpreadsheet utcPlus7)\<lparr>summarySheet :=
        Some [summaryHeader, staleRow,
              rowData utcPlus7 (Num 2000) (civilDay 2024 1 15) (Num 1600)]\<rparr>"

text \<open>The date key that the script reads from a row of the Daily Summary sheet.\<close>

definition keyOf :: "host \<Rightarrow> summary_row \<Rightarrow> int option" where
  "keyOf h r = map_option (formatDate h) (summaryDate r)"

text \<open>Notions for stating conservation: the rational a number stands for (0 for
  \<^verbatim>\<open>NaN\<close>), the sum of numbers as JavaScript adds them up from 0, the total of a
  date in a totals object (0 for a missing key) and the sum of the calories of the
  counted rows of a date.\<close>

fun ratOf :: "jsnum \<Rightarrow> rat" where
  "ratOf NaN = 0"
| "ratOf (Num q) = q"

definition jsSum :: "jsnum list \<Rightarrow> jsnum" where
  "jsSum vs = foldl jsAdd (Num 0) vs"

definition totalOf :: "totals \<Rightarrow> int \<Rightarrow> jsnum" where
  "totalOf m k = (case map_of m k of None \<Rightarrow> Num 0 | Some v \<Rightarrow> v)"

definition counted :: "host \<Rightarrow> log_row list \<Rightarrow> log_row list" where
  "counted h entries = filter (\<lambda>row. entryKey h row \<noteq> None) entries"

definition countedOn :: "host \<Rightarrow> int \<Rightarrow> log_row list \<Rightarrow> log_row list" where
  "countedOn h k entries = filter (\<lambda>row. entryKey h row = Some k) entries"

section \<open>The calorie target\<close>

lemma maxCaloriesOf_Inr:
  "maxCaloriesOf h d = Inr r \<Longrightarrow>
     r = mathRound (jsAdd (tdeeOf h d) (goalOffsetOf h (goalOffsetCell d)))"
  by (simp add: maxCaloriesOf_def Let_def split: if_splits)

lemma floor_half_away:
  fixes x :: rat
  assumes "0 \<le> x \<or> x + 1 / 2 \<noteq> of_int \<lfloor>x + 1 / 2\<rfloor>"
  shows "\<lfloor>x + 1 / 2\<rfloor> = roundHalfAwayFromZero x"
proof (cases "0 \<le> x")
  case True
  then show ?thesis by (simp add: roundHalfAwayFromZero_def)
next
  case False
  with assms have nonint: "x + 1 / 2 \<noteq> of_int \<lfloor>x + 1 / 2\<rfloor>" by simp
  let ?n = "\<lfloor>x + 1 / 2\<rfloor>"
  have lo: "of_int ?n < x + 1 / 2"
    using nonint of_int_floor_le [of "x + 1 / 2"] by linarith
  have hi: "x + 1 / 2 < of_int ?n + 1"
    using floor_correct [of "x + 1 / 2"] by linarith
  have "\<lfloor>- x + 1 / 2\<rfloor> = - ?n"
  proof (rule floor_unique)
    show "of_int (- ?n) \<le> - x + 1 / 2" using hi by simp
    show "- x + 1 / 2 < of_int (- ?n) + 1" using lo by simp
  qed
  with False show ?thesis by (simp add: roundHalfAwayFromZero_def)
qed

text \<open>
  Claim C2, evaluated on the code. For the profile Female, 60 kg, 165 cm, 30 years,
  activity 1.2 and offset 0 the script takes the branch of the male constant: the
  lower-cased text \<^verbatim>\<open>female\<close> includes \<^verbatim>\<open>male\<close>. The basal rate is
  \<open>10\<times>60 + 6.25\<times>165 - 5\<times>30 + 5 = 1486.25\<close> and the target 1784, where the constant
  \<open>-161\<close> gives 1320.25 and 1584. The abbreviation \<^verbatim>\<open>f\<close> does take the constant \<open>-161\<close>.
\<close>

theorem female_profile_takes_male_constant:
  "genderIsMale utcPlus7 femaleParameters
   \<and> bmrOf utcPlus7 femaleParameters = Num (10 * 60 + 6.25 * 165 - 5 * 30 + 5)
   \<and> bmrOf utcPlus7 femaleParameters \<noteq> Num (10 * 60 + 6.25 * 165 - 5 * 30 - 161)
   \<and> maxCaloriesOf utcPlus7 femaleParameters = Inr (Num 1784)
   \<and> mathRound (Num ((10 * 60 + 6.25 * 165 - 5 * 30 - 161) * 1.2)) = Num 1584
   \<and> bmrOf utcPlus7 (femaleParameters\<lparr>genderCell := Str ''f''\<rparr>)
       = Num (10 * 60 + 6.25 * 165 - 5 * 30 - 161)"
  by code_simp

theorem female_profile_takes_male_constant_witness:
  "bmrOf utcPlus7 femaleParameters = Num (10 * 60 + 6.25 * 165 - 5 * 30 + 5)
   \<and> maxCaloriesOf utcPlus7 femaleParameters = Inr (Num 1784)"
  using female_profile_takes_male_constant by blast

lemma summarySheet_todayView [simp]:
  "summarySheet (updateDashboardTodayView h ss) = summarySheet ss"
  by (simp add: updateDashboardTodayView_def split: option.splits sum.splits)

lemma logSheet_todayView [simp]:
  "logSheet (updateDashboardTodayView h ss) = logSheet ss"
  by (simp add: updateDashboardTodayView_def split: option.splits sum.splits)

lemma formatDate_dateOfKey:
  assumes "0 \<le> scriptTimeZone h" and "scriptTimeZone h < msPerDay"
  shows "formatDate h (dateOfKey k) = k"
proof -
  have "(k * 86400000 + scriptTimeZone h) div 86400000 = k"
    using assms by (simp add: msPerDay_def div_pos_pos_trivial)
  then show ?thesis by (simp add: formatDate_def dateOfKey_def msPerDay_def)
qed

lemma formatDate_dateOfKey_west:
  assumes "- msPerDay \<le> scriptTimeZone h" and "scriptTimeZone h < 0"
  shows "formatDate h (dateOfKey k) = k - 1"
proof -
  have "k * 86400000 + scriptTimeZone h
      = (k - 1) * 86400000 + (scriptTimeZone h + 86400000)"
    by (simp add: algebra_simps)
  moreover have "((k - 1) * 86400000 + (scriptTimeZone h + 86400000)) div 86400000 = k - 1"
    using assms by (simp add: msPerDay_def div_pos_pos_trivial)
  ultimately show ?thesis by (simp add: formatDate_def dateOfKey_def msPerDay_def)
qed

lemma formatDate_localMidnight: "formatDate h (localMidnight h y m d) = civilDay y m d"
  by (simp add: formatDate_def localMidnight_def msPerDay_def)

lemma sample_totals:
  "computeDailyTotalsFromLog h (sampleSpreadsheet h)
     = Inr (Some [(civilDay 2024 1 15, Num 1600)])"
  by (simp add: computeDailyTotalsFromLog_def sampleSpreadsheet_def aggregate_def
      addEntry_def entryKey_def entryCalories_def logEntry_def logHeader_def
      formatDate_localMidnight orZero_def)

lemma sample_target: "getMaxCaloriesFromDashboard h (sampleSpreadsheet h) = Inr (Num 2056)"
  by code_simp

lemma sample_row:
  "rowData h (Num 2056) (civilDay 2024 1 15) (Num 1600)
     = \<lparr>summaryDate = Some (dateOfKey (civilDay 2024 1 15)),
        totalIn = Number (Num 1600), maxLimit = Number (Num 2056),
        status = Str ''Under Goal (+456)'', statusColor = Green\<rparr>"
proof -
  have "natToString 456 = ''456''" by code_simp
  then show ?thesis by (simp add: rowData_def magnitudeText_def)
qed

text \<open>
  Claim C7, on the code. In every host, for the sample parameters (Male, 70 kg, 175 cm,
  30 years, activity 1.55, offset -500, as dropdown labels or as plain numbers) the
  basal rate is 1648.75, the energy expenditure 2555.5625 and the target 2056. With the
  entries 350, 450, 600 and 200 on 2024-01-15 the total of that day is 1600 and the
  refresh leaves, below the header, one row with total 1600, limit 2056 and the green
  status \<^verbatim>\<open>Under Goal (+456)\<close>, the remaining amount being \<open>2056 - 1600 = 456\<close>. The date
  cell of the row is midnight UTC of 2024-01-15. In a script time zone from UTC
  eastwards the row reads as the row of 2024-01-15; in a zone west of Greenwich it reads
  as the row of 2024-01-14.
\<close>

theorem sample_scenario:
  "bmrOf h sampleParameters = Num 1648.75
   \<and> tdeeOf h sampleParameters = Num 2555.5625
   \<and> getMaxCaloriesFromDashboard h (sampleSpreadsheet h) = Inr (Num 2056)
   \<and> maxCaloriesOf h
         (personalParameters (Str ''Male'') (Number (Num 70)) (Number (Num 175))
            (Number (Num 30)) (Number (Num 1.55)) (Number (Num (- 500)))) = Inr (Num 2056)
   \<and> computeDailyTotalsFromLog h (sampleSpreadsheet h)
       = Inr (Some [(civilDay 2024 1 15, Num 1600)])
   \<and> jsSub (Num 2056) (Num 1600) = Num 456
   \<and> summarySheet (refreshCaloryDiary h (sampleSpreadsheet h))
       = Some [summaryHeader,
               \<lparr>summaryDate = Some (dateOfKey (civilDay 2024 1 15)),
                totalIn = Number (Num 1600), maxLimit = Number (Num 2056),
                status = Str ''Under Goal (+456)'', statusColor = Green\<rparr>]
   \<and> (0 \<le> scriptTimeZone h \<and> scriptTimeZone h < msPerDay \<longrightarrow>
         keyOf h \<lparr>summaryDate = Some (dateOfKey (civilDay 2024 1 15)),
                  totalIn = Number (Num 1600), maxLimit = Number (Num 2056),
                  status = Str ''Under Goal (+456)'', statusColor = Green\<rparr>
           = Some (civilDay 2024 1 15))
   \<and> (- msPerDay \<le> scriptTimeZone h \<and> scriptTimeZone h < 0 \<longrightarrow>
         keyOf h \<lparr>summaryDate = Some (dateOfKey (civilDay 2024 1 15)),
                  totalIn = Number (Num 1600), maxLimit = Number (Num 2056),
                  status = Str ''Under Goal (+456)'', statusColor = Green\<rparr>
           = Some (civilDay 2024 1 14))"
proof -
  have bmr: "bmrOf h sampleParameters = Num 1648.75"
    and tdee: "tdeeOf h sampleParameters = Num 2555.5625"
    by code_simp+
  have plain: "maxCaloriesOf h
      (personalParameters (Str ''Male'') (Number (Num 70)) (Number (Num 175))
         (Number (Num 30)) (Number (Num 1.55)) (Number (Num (- 500)))) = Inr (Num 2056)"
    by code_simp
  have sheet: "summarySheet (sampleSpreadsheet h) = Some [summaryHeader]"
    by (simp add: sampleSpreadsheet_def)
  have rows: "summarySheet (refreshCaloryDiary h (sampleSpreadsheet h))
      = Some [summaryHeader, rowData h (Num 2056) (civilDay 2024 1 15) (Num 1600)]"
    by (simp add: refreshCaloryDiary_def refreshSteps_def sample_target sample_totals
        upsertDailySummary_def sheet existingDatesMap_def)
  have days: "civilDay 2024 1 15 - 1 = civilDay 2024 1 14"
    by code_simp
  have keys: "(0 \<le> scriptTimeZone h \<and> scriptTimeZone h < msPerDay \<longrightarrow>
         keyOf h \<lparr>summaryDate = Some (dateOfKey (civilDay 2024 1 15)),
                  totalIn = Number (Num 1600), maxLimit = Number (Num 2056),
                  status = Str ''Under Goal (+456)'', statusColor = Green\<rparr>
           = Some (civilDay 2024 1 15))
      \<and> (- msPerDay \<le> scriptTimeZone h \<and> scriptTimeZone h < 0 \<longrightarrow>
         keyOf h \<lparr>summaryDate = Some (dateOfKey (civilDay 2024 1 15)),
                  totalIn = Number (Num 1600), maxLimit = Number (Num 2056),
                  status = Str ''Under Goal (+456)'', statusColor = Green\<rparr>
           = Some (civilDay 2024 1 14))"
    using formatDate_dateOfKey [of h "civilDay 2024 1 15"]
      formatDate_dateOfKey_west [of h "civilDay 2024 1 15"] days
    by (simp add: keyOf_def)
  from rows have "summarySheet (refreshCaloryDiary h (sampleSpreadsheet h))
      = Some [summaryHeader,
               \<lparr>summaryDate = Some (dateOfKey (civilDay 2024 1 15)),
                totalIn = Number (Num 1600), maxLimit = Number (Num 2056),
                status = Str ''Under Goal (+456)'', statusColor = Green\<rparr>]"
    by (simp add: sample_row)
  with bmr tdee plain sample_target [of h] sample_totals [of h] keys show ?thesis
    by simp
qed

theorem sample_scenario_witness:
  "summarySheet (refreshCaloryDiary utcMinus5 (sampleSpreadsheet utcMinus5))
       = Some [summaryHeader,
               \<lparr>summaryDate = Some (dateOfKey (civilDay 2024 1 15)),
                totalIn = Number (Num 1600), maxLimit = Number (Num 2056),
                status = Str ''Under Goal (+456)'', statusColor = Green\<rparr>]
   \<and> keyOf utcMinus5 \<lparr>summaryDate = Some (dateOfKey (civilDay 2024 1 15)),
                  totalIn = Number (Num 1600), maxLimit = Number (Num 2056),
                  status = Str ''Under Goal (+456)'', statusColor = Green\<rparr>
       = Some (civilDay 2024 1 14)
   \<and> civilDay 2024 1 14 \<noteq> civilDay 2024 1 15
   \<and> getMaxCaloriesFromDashboard utcPlus7 (sampleSpreadsheet utcPlus7) = Inr (Num 2056)
   \<and> summarySheet (refreshCaloryDiary utcPlus7 (sampleSpreadsheet utcPlus7))
       = Some [summaryHeader,
               \<lparr>summaryDate = Some (dateOfKey (civilDay 2024 1 15)),
                totalIn = Number (Num 1600), maxLimit = Number (Num 2056),
                status = Str ''Under Goal (+456)'', statusColor = Green\<rparr>]
   \<and> keyOf utcPlus7 \<lparr>summaryDate = Some (dateOfKey (civilDay 2024 1 15)),
                  totalIn = Number (Num 1600), maxLimit = Number (Num 2056),
                  status = Str ''Under Goal (+456)'', statusColor = Green\<rparr>
       = Some (civilDay 2024 1 15)"
proof -
  have east: "0 \<le> scriptTimeZone utcPlus7 \<and> scriptTimeZone utcPlus7 < msPerDay"
    by code_simp
  have west: "- msPerDay \<le> scriptTimeZone utcMinus5 \<and> scriptTimeZone utcMinus5 < 0"
    by code_simp
  have neq: "civilDay 2024 1 14 \<noteq> civilDay 2024 1 15"
    by code_simp
  from sample_scenario [of utcPlus7] sample_scenario [of utcMinus5] east west neq
  show ?thesis by blast
qed

text \<open>
  Claim C8 as stated fails: a negative weight is not rejected. With the weight cell
  holding \<open>-70\<close> the script returns a target and throws nothing.
\<close>

theorem negative_weight_is_accepted:
  "parseFloatCell utcPlus7 (weightCell negativeWeightParameters) = Num (- 70)
   \<and> maxCaloriesOf utcPlus7 negativeWeightParameters = Inr (Num (- 114))"
  by code_simp

text \<open>
  Claim C8, amended. The computation throws exactly when the parsed weight, height, age
  or activity multiplier is \<^verbatim>\<open>NaN\<close> or zero, where parsing reads the leading numeric
  prefix of a text and takes a number as it is; a negative value passes. An activity
  text with a parenthesis is parsed from its first token, any other from the whole
  text. A goal text without a parenthesis that does not parse counts as 0, and a goal
  label counts as the number its first token parses to.
\<close>

theorem maxCalories_throws_iff_metric_falsy:
  "(maxCaloriesOf h d = Inl MissingMetrics) =
     (parseFloatCell h (weightCell d) \<in> {NaN, Num 0}
      \<or> parseFloatCell h (heightCell d) \<in> {NaN, Num 0}
      \<or> parseFloatCell h (ageCell d) \<in> {NaN, Num 0}
      \<or> activityMultiplierOf h (activityMultiplierCell d) \<in> {NaN, Num 0})
   \<and> (\<forall>e. maxCaloriesOf h d = Inl e \<longrightarrow> e = MissingMetrics)
   \<and> activityMultiplierOf h (Number n) = n
   \<and> activityMultiplierOf h (Str s) =
         (if CHR ''('' \<in> set s then parseFloat (firstToken s) else parseFloat s)
   \<and> goalOffsetOf h (Number n) = orZero n
   \<and> (CHR ''('' \<notin> set s \<longrightarrow> goalOffsetOf h (Str s) = orZero (parseFloat s))
   \<and> (CHR ''('' \<in> set s \<and> parseFloat (firstToken s) = Num q \<longrightarrow>
          goalOffsetOf h (Str s) = Num q)"
proof -
  have falsy: "(\<not> truthy x) = (x \<in> {NaN, Num 0})" for x
    by (cases x) auto
  have "(maxCaloriesOf h d = Inl MissingMetrics) =
     (\<not> truthy (parseFloatCell h (weightCell d))
      \<or> \<not> truthy (parseFloatCell h (heightCell d))
      \<or> \<not> truthy (parseFloatCell h (ageCell d))
      \<or> \<not> truthy (activityMultiplierOf h (activityMultiplierCell d)))"
    by (simp add: maxCaloriesOf_def Let_def)
  moreover have "\<forall>e. maxCaloriesOf h d = Inl e \<longrightarrow> e = MissingMetrics"
    by (simp add: maxCaloriesOf_def Let_def split: if_splits)
  ultimately show ?thesis
    unfolding falsy by (simp add: Let_def)
qed

theorem maxCalories_throws_iff_metric_falsy_witness:
  "maxCaloriesOf utcPlus7 blankWeightParameters = Inl MissingMetrics
   \<and> goalOffsetOf utcPlus7 (Str ''abc'') = Num 0
   \<and> goalOffsetOf utcPlus7 (Str ''-500 (Weight Loss)'') = Num (- 500)"
proof -
  have w: "parseFloatCell utcPlus7 (weightCell blankWeightParameters) = NaN"
    by code_simp
  have p1: "CHR ''('' \<notin> set ''abc''" and p2: "orZero (parseFloat ''abc'') = Num 0"
    and p3: "CHR ''('' \<in> set ''-500 (Weight Loss)''"
    and p4: "parseFloat (firstToken ''-500 (Weight Loss)'') = Num (- 500)"
    by code_simp+
  from w p1 p2
    maxCalories_throws_iff_metric_falsy [of utcPlus7 blankWeightParameters _ "''abc''"]
  have a: "maxCaloriesOf utcPlus7 blankWeightParameters = Inl MissingMetrics"
    and b: "goalOffsetOf utcPlus7 (Str ''abc'') = Num 0"
    by auto
  from p3 p4
    maxCalories_throws_iff_metric_falsy
      [of utcPlus7 blankWeightParameters _ "''-500 (Weight Loss)''" "- 500"]
  have "goalOffsetOf utcPlus7 (Str ''-500 (Weight Loss)'') = Num (- 500)"
    by blast
  with a b show ?thesis by simp
qed

text \<open>
  Claim C10 as stated fails on a negative tie. For Male, 30.5 kg, 65 cm, 60 years,
  activity 1.2 and offset -500 the basal rate is 416.25 and the sum \<open>499.5 - 500 = -0.5\<close>;
  the script returns 0, where rounding half away from zero gives \<open>-1\<close>.
\<close>

theorem negative_tie_rounds_up:
  "bmrOf utcPlus7 deficitParameters = Num 416.25
   \<and> jsAdd (tdeeOf utcPlus7 deficitParameters)
         (goalOffsetOf utcPlus7 (goalOffsetCell deficitParameters)) = Num (- 1 / 2)
   \<and> maxCaloriesOf utcPlus7 deficitParameters = Inr (Num 0)
   \<and> roundHalfAwayFromZero (- 1 / 2) = - 1"
  by code_simp

text \<open>
  Claim C10, amended. For every profile that passes validation the returned target is
  energy expenditure plus offset rounded to the nearest integer with a tie going up,
  \<open>\<lfloor>x + 1/2\<rfloor>\<close>. This is rounding half away from zero whenever the sum is not negative
  or is not a tie.
\<close>

theorem daily_goal_rounds_half_up:
  assumes "maxCaloriesOf h d = Inr r"
    and "jsAdd (tdeeOf h d) (goalOffsetOf h (goalOffsetCell d)) = Num x"
  shows "r = Num (of_int \<lfloor>x + 1 / 2\<rfloor>)
         \<and> (0 \<le> x \<or> x + 1 / 2 \<noteq> of_int \<lfloor>x + 1 / 2\<rfloor> \<longrightarrow>
              r = Num (of_int (roundHalfAwayFromZero x)))"
  using maxCaloriesOf_Inr [OF assms(1)] assms(2) floor_half_away [of x] by auto

theorem daily_goal_rounds_half_up_witness:
  "maxCaloriesOf utcPlus7 sampleParameters = Inr (Num 2056)
   \<and> jsAdd (tdeeOf utcPlus7 sampleParameters)
           (goalOffsetOf utcPlus7 (goalOffsetCell sampleParameters)) = Num (2055 + 9 / 16)
   \<and> Num 2056 = Num (of_int \<lfloor>(2055 + 9 / 16 :: rat) + 1 / 2\<rfloor>)
   \<and> Num 2056 = Num (of_int (roundHalfAwayFromZero (2055 + 9 / 16)))"
proof -
  have a: "maxCaloriesOf utcPlus7 sampleParameters = Inr (Num 2056)"
    by code_simp
  have b: "jsAdd (tdeeOf utcPlus7 sampleParameters)
             (goalOffsetOf utcPlus7 (goalOffsetCell sampleParameters)) = Num (2055 + 9 / 16)"
    by code_simp
  have c: "(0::rat) \<le> 2055 + 9 / 16" by simp
  from daily_goal_rounds_half_up [OF a b] c a b show ?thesis by simp
qed

section \<open>The aggregator\<close>

lemma map_of_assign: "map_of (assign m k v) = (map_of m)(k \<mapsto> v)"
  by (induction m) (auto simp: fun_eq_iff)

lemma keys_assign:
  "map fst (assign m k v) = (if k \<in> fst ` set m then map fst m else map fst m @ [k])"
  by (induction m) (auto simp: rev_image_eqI)

lemma distinct_assign: "distinct (map fst m) \<Longrightarrow> distinct (map fst (assign m k v))"
  by (simp add: keys_assign)

lemma assign_assign: "assign (assign m k v) k w = assign m k w"
  by (induction m) auto

lemma entryCalories_Num: "entryCalories h row = Num (ratOf (entryCalories h row))"
  by (cases "parseFloatCell h (caloriesValue row)") (auto simp: entryCalories_def orZero_def)

lemma addEntry_skip: "entryKey h row = None \<Longrightarrow> addEntry h m row = m"
  by (simp add: addEntry_def)

lemma addEntry_count:
  assumes "entryKey h row = Some k"
  shows "addEntry h m row = assign m k (Num (ratOf (totalOf m k) + ratOf (entryCalories h row)))"
proof -
  obtain q where q: "entryCalories h row = Num q"
    using entryCalories_Num by blast
  show ?thesis
  proof (cases "map_of m k")
    case None
    then show ?thesis
      using assms q by (simp add: addEntry_def totalOf_def map_of_assign assign_assign)
  next
    case (Some v)
    then show ?thesis
      using assms q
      by (cases v) (auto simp: addEntry_def totalOf_def map_of_assign assign_assign)
  qed
qed

lemma sum_assign:
  "sum_list (map (ratOf \<circ> snd) (assign m k v)) =
     sum_list (map (ratOf \<circ> snd) m) - ratOf (totalOf m k) + ratOf v"
  by (induction m) (auto simp: totalOf_def)

lemma totalOf_assign:
  "totalOf (assign m k v) k' = (if k' = k then v else totalOf m k')"
  by (simp add: totalOf_def map_of_assign)

lemma values_assign: "(k', v') \<in> set (assign m k v) \<Longrightarrow> v' = v \<or> (k', v') \<in> set m"
  by (induction m) (auto split: if_splits)

lemma assign_no_NaN:
  "NaN \<notin> snd ` set m \<Longrightarrow> NaN \<notin> snd ` set (assign m k (Num q))"
  using values_assign by fastforce

lemma jsSum_Num:
  "NaN \<notin> set vs \<Longrightarrow> foldl jsAdd (Num a) vs = Num (a + sum_list (map ratOf vs))"
proof (induction vs arbitrary: a)
  case Nil
  then show ?case by simp
next
  case (Cons v vs)
  then obtain q where "v = Num q" by (cases v) auto
  with Cons show ?case by (simp add: add.assoc)
qed

lemma aggregate_step_sum:
  "sum_list (map (ratOf \<circ> snd) (addEntry h m row)) =
     sum_list (map (ratOf \<circ> snd) m)
       + (if entryKey h row = None then 0 else ratOf (entryCalories h row))"
  by (cases "entryKey h row") (auto simp: addEntry_skip addEntry_count sum_assign)

lemma aggregate_step_values:
  "NaN \<notin> snd ` set m \<Longrightarrow> NaN \<notin> snd ` set (addEntry h m row)"
  by (cases "entryKey h row") (simp_all add: addEntry_skip addEntry_count assign_no_NaN)

lemma aggregate_step_keys:
  "fst ` set (addEntry h m row) =
     fst ` set m \<union> (case entryKey h row of None \<Rightarrow> {} | Some k \<Rightarrow> {k})"
proof (cases "entryKey h row")
  case None
  then show ?thesis by (simp add: addEntry_skip)
next
  case (Some k)
  have "set (map fst (assign m k v)) = insert k (fst ` set m)" for v
    by (auto simp: keys_assign)
  with Some show ?thesis by (simp add: addEntry_count)
qed

lemma aggregate_step_distinct:
  "distinct (map fst m) \<Longrightarrow> distinct (map fst (addEntry h m row))"
  by (cases "entryKey h row") (simp_all add: addEntry_skip addEntry_count distinct_assign)

lemma foldl_addEntry_sum:
  "sum_list (map (ratOf \<circ> snd) (foldl (addEntry h) m entries)) =
     sum_list (map (ratOf \<circ> snd) m)
       + sum_list (map (ratOf \<circ> entryCalories h) (counted h entries))"
  by (induction entries arbitrary: m) (auto simp: aggregate_step_sum counted_def)

lemma foldl_addEntry_values:
  "NaN \<notin> snd ` set m \<Longrightarrow> NaN \<notin> snd ` set (foldl (addEntry h) m entries)"
  by (induction entries arbitrary: m) (simp_all add: aggregate_step_values)

lemma foldl_addEntry_keys:
  "fst ` set (foldl (addEntry h) m entries) =
     fst ` set m \<union> {k. \<exists>row \<in> set entries. entryKey h row = Some k}"
  by (induction entries arbitrary: m) (auto simp: aggregate_step_keys split: option.splits)

lemma foldl_addEntry_distinct:
  "distinct (map fst m) \<Longrightarrow> distinct (map fst (foldl (addEntry h) m entries))"
  by (induction entries arbitrary: m) (simp_all add: aggregate_step_distinct)

lemma foldl_addEntry_total:
  "ratOf (totalOf (foldl (addEntry h) m entries) k) =
     ratOf (totalOf m k)
       + sum_list (map (ratOf \<circ> entryCalories h) (countedOn h k entries))"
proof (induction entries arbitrary: m)
  case Nil
  then show ?case by (simp add: countedOn_def)
next
  case (Cons row entries)
  show ?case
  proof (cases "entryKey h row")
    case None
    then show ?thesis using Cons [of m] by (simp add: addEntry_skip countedOn_def)
  next
    case (Some k')
    then show ?thesis
      using Cons [of "addEntry h m row"]
      by (simp add: addEntry_count totalOf_assign countedOn_def)
  qed
qed

lemma jsSum_values:
  "NaN \<notin> set vs \<Longrightarrow> jsSum vs = Num (sum_list (map ratOf vs))"
  by (simp add: jsSum_def jsSum_Num)

lemma entryCalories_not_NaN: "NaN \<notin> set (map (entryCalories h) rows)"
proof
  assume "NaN \<in> set (map (entryCalories h) rows)"
  then obtain row where "NaN = entryCalories h row" by auto
  with entryCalories_Num [of h row] show False by simp
qed

lemma aggregate_conservation:
  "jsSum (map snd (aggregate h entries)) = jsSum (map (entryCalories h) (counted h entries))"
proof -
  have "NaN \<notin> snd ` set (aggregate h entries)"
    unfolding aggregate_def by (rule foldl_addEntry_values) simp
  then have "jsSum (map snd (aggregate h entries)) =
      Num (sum_list (map (ratOf \<circ> snd) (aggregate h entries)))"
    by (simp add: jsSum_values comp_def)
  also have "\<dots> = Num (sum_list (map (ratOf \<circ> entryCalories h) (counted h entries)))"
    by (simp add: aggregate_def foldl_addEntry_sum)
  also have "\<dots> = jsSum (map (entryCalories h) (counted h entries))"
    using entryCalories_not_NaN [of h "counted h entries"]
    by (simp add: jsSum_values comp_def)
  finally show ?thesis .
qed

lemma totalOf_Num:
  "NaN \<notin> snd ` set m \<Longrightarrow> totalOf m k = Num (ratOf (totalOf m k))"
proof (cases "map_of m k")
  case None
  then show ?thesis by (simp add: totalOf_def)
next
  case (Some v)
  assume "NaN \<notin> snd ` set m"
  moreover from Some have "v \<in> snd ` set m"
    by (metis map_of_SomeD snd_conv image_eqI)
  ultimately have "v \<noteq> NaN" by blast
  with Some show ?thesis by (cases v) (simp_all add: totalOf_def)
qed

lemma totalOf_aggregate:
  "totalOf (aggregate h entries) k =
     Num (sum_list (map (ratOf \<circ> entryCalories h) (countedOn h k entries)))"
proof -
  have "NaN \<notin> snd ` set (aggregate h entries)"
    unfolding aggregate_def by (rule foldl_addEntry_values) simp
  then have "totalOf (aggregate h entries) k = Num (ratOf (totalOf (aggregate h entries) k))"
    by (rule totalOf_Num)
  moreover have "ratOf (totalOf [] k) = 0"
    by (simp add: totalOf_def)
  ultimately show ?thesis
    using foldl_addEntry_total [of h "[]" entries k] by (simp add: aggregate_def)
qed

lemma aggregate_keys:
  "fst ` set (aggregate h entries) = {k. \<exists>row \<in> set entries. entryKey h row = Some k}"
  by (simp add: aggregate_def foldl_addEntry_keys)

lemma aggregate_distinct: "distinct (map fst (aggregate h entries))"
  by (simp add: aggregate_def foldl_addEntry_distinct)

lemma map_of_aggregate:
  "map_of (aggregate h entries) k =
     (if \<exists>row \<in> set entries. entryKey h row = Some k
      then Some (totalOf (aggregate h entries) k) else None)"
proof (cases "map_of (aggregate h entries) k")
  case None
  then have "k \<notin> fst ` set (aggregate h entries)"
    by (simp add: map_of_eq_None_iff)
  with None show ?thesis by (simp add: aggregate_keys)
next
  case (Some v)
  then have "k \<in> fst ` set (aggregate h entries)"
    by (metis map_of_eq_None_iff option.distinct(1))
  with Some show ?thesis by (simp add: aggregate_keys totalOf_def)
qed

text \<open>
  Claim C3, on the code. Below the header \<open>header\<close> the Log sheet holds the rows
  \<open>entries\<close>. When there is none, the function returns \<^verbatim>\<open>undefined\<close> and no totals object at
  all. When there is one, it returns the totals of the loop. Those totals conserve the
  calories: the sum of their values is the sum of the calories of the counted rows (the
  rows the loop does not skip, each with \<^verbatim>\<open>parseFloat(calories) || 0\<close>), and the date key of
  every counted row is a key of the totals exactly once.
\<close>

theorem aggregator_totals:
  assumes "logSheet ss = Some (header # entries)"
  shows "(entries = [] \<longrightarrow> computeDailyTotalsFromLog h ss = Inr None)
    \<and> (entries \<noteq> [] \<longrightarrow>
         computeDailyTotalsFromLog h ss = Inr (Some (aggregate h entries)))
    \<and> jsSum (map snd (aggregate h entries))
        = jsSum (map (entryCalories h) (counted h entries))
    \<and> distinct (map fst (aggregate h entries))
    \<and> set (map fst (aggregate h entries))
        = {k. \<exists>row \<in> set entries. entryKey h row = Some k}"
proof -
  have "entries = [] \<longrightarrow> computeDailyTotalsFromLog h ss = Inr None"
    using assms by (simp add: computeDailyTotalsFromLog_def)
  moreover have "entries \<noteq> [] \<longrightarrow>
      computeDailyTotalsFromLog h ss = Inr (Some (aggregate h entries))"
    using assms by (cases entries) (simp_all add: computeDailyTotalsFromLog_def)
  moreover have "set (map fst (aggregate h entries))
      = {k. \<exists>row \<in> set entries. entryKey h row = Some k}"
    using aggregate_keys [of h entries] by simp
  ultimately show ?thesis
    using aggregate_conservation [of h entries] aggregate_distinct [of h entries]
    by blast
qed

theorem aggregator_totals_witness:
  "computeDailyTotalsFromLog utcPlus7 emptyLogBook = Inr None
   \<and> refreshSteps utcPlus7 emptyLogBook = Inl TypeError
   \<and> computeDailyTotalsFromLog utcPlus7 textCaloriesBook
       = Inr (Some [(civilDay 2024 1 14, Num 300), (civilDay 2024 1 15, Num 0)])"
proof -
  have l1: "logSheet emptyLogBook = Some (logHeader # [])"
    by (simp add: emptyLogBook_def)
  have l2: "logSheet textCaloriesBook = Some (logHeader #
      [logEntry (DateV (localMidnight utcPlus7 2024 1 14)) (Number (Num 300)),
       logEntry (DateV (localMidnight utcPlus7 2024 1 15)) (Str ''abc'')])"
    by (simp add: textCaloriesBook_def)
  have a: "aggregate utcPlus7
      [logEntry (DateV (localMidnight utcPlus7 2024 1 14)) (Number (Num 300)),
       logEntry (DateV (localMidnight utcPlus7 2024 1 15)) (Str ''abc'')]
      = [(civilDay 2024 1 14, Num 300), (civilDay 2024 1 15, Num 0)]"
    by code_simp
  have t: "refreshSteps utcPlus7 emptyLogBook = Inl TypeError"
    by code_simp
  from aggregator_totals [OF l1, of utcPlus7] aggregator_totals [OF l2, of utcPlus7] a t
  show ?thesis by simp
qed

text \<open>
  Claim C9 as stated fails: an entry whose calories are the text \<^verbatim>\<open>abc\<close> is not left out of
  the totals. Its date, 2024-01-15, becomes a key with total 0 (without the entry the
  totals hold 2024-01-14 only), and the refresh writes a summary row for it.
\<close>

theorem text_calories_entry_gets_a_total:
  "aggregate utcPlus7
     [logEntry (DateV (localMidnight utcPlus7 2024 1 14)) (Number (Num 300)),
      logEntry (DateV (localMidnight utcPlus7 2024 1 15)) (Str ''abc'')]
     = [(civilDay 2024 1 14, Num 300), (civilDay 2024 1 15, Num 0)]
   \<and> aggregate utcPlus7
     [logEntry (DateV (localMidnight utcPlus7 2024 1 14)) (Number (Num 300))]
     = [(civilDay 2024 1 14, Num 300)]
   \<and> summarySheet (refreshCaloryDiary utcPlus7 textCaloriesBook)
     = Some [summaryHeader,
             rowData utcPlus7 (Num 2056) (civilDay 2024 1 14) (Num 300),
             rowData utcPlus7 (Num 2056) (civilDay 2024 1 15) (Num 0)]"
  by code_simp

text \<open>
  Claim C9, amended. Let \<open>e\<close> be a row whose date cell is empty or whose calories have
  no numeric prefix (\<^verbatim>\<open>parseFloat\<close> gives \<^verbatim>\<open>NaN\<close>), anywhere among the rows \<open>xs\<close> and \<open>ys\<close>.
  A row with an empty date is skipped: the totals are those of the other rows. A row
  with such calories counts as 0: the total of every date is what it is without the row
  (a date that is no key having total 0), and the value stored under every key other
  than the row's own date is the same; the row's own date is a key all the same. The
  aggregator returns its totals and throws nothing, and the refresh throws nothing when
  the parameters are valid and the Daily Summary sheet exists.
\<close>

theorem invalid_entry_tolerance:
  assumes "\<not> cellTruthy (dateValue e) \<or> parseFloatCell h (caloriesValue e) = NaN"
  shows "(\<not> cellTruthy (dateValue e) \<longrightarrow>
            aggregate h (xs @ e # ys) = aggregate h (xs @ ys))
    \<and> (\<forall>k. totalOf (aggregate h (xs @ e # ys)) k = totalOf (aggregate h (xs @ ys)) k)
    \<and> (\<forall>k. entryKey h e \<noteq> Some k \<longrightarrow>
           map_of (aggregate h (xs @ e # ys)) k = map_of (aggregate h (xs @ ys)) k)
    \<and> (\<forall>k. entryKey h e = Some k \<longrightarrow> k \<in> fst ` set (aggregate h (xs @ e # ys)))
    \<and> (logSheet ss = Some (header # xs @ e # ys) \<longrightarrow>
           computeDailyTotalsFromLog h ss = Inr (Some (aggregate h (xs @ e # ys))))
    \<and> (logSheet ss = Some (header # xs @ e # ys)
         \<and> getMaxCaloriesFromDashboard h ss = Inr g \<and> summarySheet ss = Some rows \<longrightarrow>
           (\<exists>ss'. refreshSteps h ss = Inr ss'))"
proof -
  have zero: "entryKey h e = None \<or> ratOf (entryCalories h e) = 0"
    using assms by (auto simp: entryKey_def entryCalories_def orZero_def)
  have skip: "\<not> cellTruthy (dateValue e) \<longrightarrow>
      aggregate h (xs @ e # ys) = aggregate h (xs @ ys)"
    by (simp add: aggregate_def entryKey_def addEntry_skip)
  have sums: "sum_list (map (ratOf \<circ> entryCalories h) (countedOn h k (xs @ e # ys)))
      = sum_list (map (ratOf \<circ> entryCalories h) (countedOn h k (xs @ ys)))" for k
    using zero by (auto simp: countedOn_def)
  have tot: "totalOf (aggregate h (xs @ e # ys)) k = totalOf (aggregate h (xs @ ys)) k" for k
    by (simp add: totalOf_aggregate sums)
  have other: "entryKey h e \<noteq> Some k \<longrightarrow>
      map_of (aggregate h (xs @ e # ys)) k = map_of (aggregate h (xs @ ys)) k" for k
    by (auto simp: map_of_aggregate tot)
  have own: "entryKey h e = Some k \<longrightarrow> k \<in> fst ` set (aggregate h (xs @ e # ys))" for k
    by (auto simp: aggregate_keys)
  have agg: "logSheet ss = Some (header # xs @ e # ys) \<longrightarrow>
      computeDailyTotalsFromLog h ss = Inr (Some (aggregate h (xs @ e # ys)))"
    by (simp add: computeDailyTotalsFromLog_def)
  have run: "logSheet ss = Some (header # xs @ e # ys)
      \<and> getMaxCaloriesFromDashboard h ss = Inr g \<and> summarySheet ss = Some rows \<longrightarrow>
      (\<exists>ss'. refreshSteps h ss = Inr ss')"
    by (simp add: refreshSteps_def computeDailyTotalsFromLog_def upsertDailySummary_def)
  from skip tot other own agg run show ?thesis by blast
qed

theorem invalid_entry_tolerance_witness:
  "totalOf (aggregate utcPlus7
      ([logEntry (DateV (localMidnight utcPlus7 2024 1 14)) (Number (Num 300))]
        @ logEntry (DateV (localMidnight utcPlus7 2024 1 15)) (Str ''abc'') # []))
      (civilDay 2024 1 14)
    = totalOf (aggregate utcPlus7
      ([logEntry (DateV (localMidnight utcPlus7 2024 1 14)) (Number (Num 300))] @ []))
      (civilDay 2024 1 14)
   \<and> aggregate utcPlus7
      ([logEntry (DateV (localMidnight utcPlus7 2024 1 14)) (Number (Num 300))]
        @ logEntry (Str []) (Number (Num 500)) # [])
    = aggregate utcPlus7
      ([logEntry (DateV (localMidnight utcPlus7 2024 1 14)) (Number (Num 300))] @ [])"
proof -
  have a: "\<not> cellTruthy (dateValue (logEntry (DateV (localMidnight utcPlus7 2024 1 15))
        (Str ''abc'')))
      \<or> parseFloatCell utcPlus7 (caloriesValue
        (logEntry (DateV (localMidnight utcPlus7 2024 1 15)) (Str ''abc''))) = NaN"
    by code_simp
  have b: "\<not> cellTruthy (dateValue (logEntry (Str []) (Number (Num 500))))"
    by code_simp
  from invalid_entry_tolerance [OF a] invalid_entry_tolerance [of "logEntry (Str []) (Number (Num 500))"] b
  show ?thesis by blast
qed

section \<open>The upsert\<close>

lemma existingDatesFrom_Cons:
  "existingDatesFrom h i (r # rs) m =
     existingDatesFrom h (Suc i) rs
       (case keyOf h r of None \<Rightarrow> m | Some k \<Rightarrow> m(k \<mapsto> i + 1))"
  by (cases "summaryDate r") (simp_all add: keyOf_def)

lemma existingDatesFrom_absent:
  "\<forall>r \<in> set rs. keyOf h r \<noteq> Some k \<Longrightarrow> existingDatesFrom h i rs m k = m k"
proof (induction rs arbitrary: i m)
  case Nil
  then show ?case by simp
next
  case (Cons r rs)
  then show ?case
    by (cases "keyOf h r") (simp_all add: existingDatesFrom_Cons del: existingDatesFrom.simps)
qed

lemma existingDatesFrom_last:
  assumes "j < length rs" and "keyOf h (rs ! j) = Some k"
    and "\<forall>j'. j < j' \<and> j' < length rs \<longrightarrow> keyOf h (rs ! j') \<noteq> Some k"
  shows "existingDatesFrom h i rs m k = Some (i + j + 1)"
  using assms
proof (induction rs arbitrary: i j m)
  case Nil
  then show ?case by simp
next
  case (Cons r rs)
  show ?case
  proof (cases j)
    case 0
    with Cons.prems have key: "keyOf h r = Some k" by simp
    have "\<forall>r' \<in> set rs. keyOf h r' \<noteq> Some k"
    proof
      fix r' assume "r' \<in> set rs"
      then obtain j' where "j' < length rs" and "rs ! j' = r'"
        by (auto simp: in_set_conv_nth)
      with Cons.prems(3) [rule_format, of "Suc j'"] 0 show "keyOf h r' \<noteq> Some k"
        by auto
    qed
    then show ?thesis
      using key 0
      by (simp add: existingDatesFrom_Cons existingDatesFrom_absent del: existingDatesFrom.simps)
  next
    case (Suc j0)
    have "existingDatesFrom h (Suc i) rs m' k = Some (Suc i + j0 + 1)" for m'
    proof (rule Cons.IH)
      show "j0 < length rs" using Cons.prems(1) Suc by simp
      show "keyOf h (rs ! j0) = Some k" using Cons.prems(2) Suc by simp
      show "\<forall>j'. j0 < j' \<and> j' < length rs \<longrightarrow> keyOf h (rs ! j') \<noteq> Some k"
      proof (intro allI impI)
        fix j' assume "j0 < j' \<and> j' < length rs"
        with Cons.prems(3) [rule_format, of "Suc j'"] Suc
        show "keyOf h (rs ! j') \<noteq> Some k" by simp
      qed
    qed
    then show ?thesis
      using Suc by (simp add: existingDatesFrom_Cons del: existingDatesFrom.simps)
  qed
qed

lemma existingDatesFrom_Some:
  assumes "existingDatesFrom h i rs m k = Some n"
  shows "(m k = Some n \<and> (\<forall>r \<in> set rs. keyOf h r \<noteq> Some k))
       \<or> (\<exists>j < length rs. n = i + j + 1 \<and> keyOf h (rs ! j) = Some k
             \<and> (\<forall>j'. j < j' \<and> j' < length rs \<longrightarrow> keyOf h (rs ! j') \<noteq> Some k))"
proof (cases "\<forall>r \<in> set rs. keyOf h r \<noteq> Some k")
  case True
  with assms show ?thesis by (simp add: existingDatesFrom_absent)
next
  case False
  then have ne: "{j. j < length rs \<and> keyOf h (rs ! j) = Some k} \<noteq> {}"
    by (auto simp: in_set_conv_nth)
  define J where "J = Max {j. j < length rs \<and> keyOf h (rs ! j) = Some k}"
  have fin: "finite {j. j < length rs \<and> keyOf h (rs ! j) = Some k}" by simp
  have Jin: "J \<in> {j. j < length rs \<and> keyOf h (rs ! j) = Some k}"
    unfolding J_def using fin ne by (rule Max_in)
  have Jmax: "\<forall>j'. J < j' \<and> j' < length rs \<longrightarrow> keyOf h (rs ! j') \<noteq> Some k"
  proof (intro allI impI notI)
    fix j' assume a: "J < j' \<and> j' < length rs" and b: "keyOf h (rs ! j') = Some k"
    then have "j' \<in> {j. j < length rs \<and> keyOf h (rs ! j) = Some k}" by simp
    then have "j' \<le> J" unfolding J_def using fin by (rule Max_ge [rotated])
    with a show False by simp
  qed
  from Jin have "existingDatesFrom h i rs m k = Some (i + J + 1)"
    using Jmax by (intro existingDatesFrom_last) auto
  with assms Jin Jmax show ?thesis by auto
qed

lemma existingDatesFrom_None:
  assumes "existingDatesFrom h i rs m k = None"
  shows "\<forall>r \<in> set rs. keyOf h r \<noteq> Some k"
proof (rule ccontr)
  assume "\<not> (\<forall>r \<in> set rs. keyOf h r \<noteq> Some k)"
  then have ne: "{j. j < length rs \<and> keyOf h (rs ! j) = Some k} \<noteq> {}"
    by (auto simp: in_set_conv_nth)
  define J where "J = Max {j. j < length rs \<and> keyOf h (rs ! j) = Some k}"
  have fin: "finite {j. j < length rs \<and> keyOf h (rs ! j) = Some k}" by simp
  have Jin: "J \<in> {j. j < length rs \<and> keyOf h (rs ! j) = Some k}"
    unfolding J_def using fin ne by (rule Max_in)
  have Jmax: "\<forall>j'. J < j' \<and> j' < length rs \<longrightarrow> keyOf h (rs ! j') \<noteq> Some k"
  proof (intro allI impI notI)
    fix j' assume a: "J < j' \<and> j' < length rs" and b: "keyOf h (rs ! j') = Some k"
    then have "j' \<in> {j. j < length rs \<and> keyOf h (rs ! j) = Some k}" by simp
    then have "j' \<le> J" unfolding J_def using fin by (rule Max_ge [rotated])
    with a show False by simp
  qed
  from Jin have "existingDatesFrom h i rs m k = Some (i + J + 1)"
    using Jmax by (intro existingDatesFrom_last) auto
  with assms show False by simp
qed

lemma existingDatesMap_Some:
  assumes "existingDatesMap h rows k = Some n"
  shows "2 \<le> n \<and> n \<le> length rows \<and> keyOf h (rows ! (n - 1)) = Some k
       \<and> (\<forall>j. n - 1 < j \<and> j < length rows \<longrightarrow> keyOf h (rows ! j) \<noteq> Some k)"
proof -
  from existingDatesFrom_Some [OF assms [unfolded existingDatesMap_def]]
  obtain j where j: "j < length (tl rows)" "n = 1 + j + 1"
      "keyOf h (tl rows ! j) = Some k"
      "\<forall>j'. j < j' \<and> j' < length (tl rows) \<longrightarrow> keyOf h (tl rows ! j') \<noteq> Some k"
    by auto
  have nth: "tl rows ! a = rows ! Suc a" if "a < length (tl rows)" for a
    using that by (simp add: nth_tl)
  have "\<forall>j'. n - 1 < j' \<and> j' < length rows \<longrightarrow> keyOf h (rows ! j') \<noteq> Some k"
  proof (intro allI impI)
    fix j' assume a: "n - 1 < j' \<and> j' < length rows"
    then obtain a' where a': "j' = Suc a'" by (cases j') auto
    with a j(2) have "j < a' \<and> a' < length (tl rows)" by auto
    with j(4) nth [of a'] a' show "keyOf h (rows ! j') \<noteq> Some k" by auto
  qed
  with j nth [of j] show ?thesis by auto
qed

lemma existingDatesMap_last:
  assumes "1 \<le> i" and "i < length rows" and "keyOf h (rows ! i) = Some k"
    and "\<forall>j. i < j \<and> j < length rows \<longrightarrow> keyOf h (rows ! j) \<noteq> Some k"
  shows "existingDatesMap h rows k = Some (i + 1)"
proof -
  obtain a where a: "i = Suc a" using assms(1) by (cases i) auto
  have nth: "tl rows ! b = rows ! Suc b" if "b < length (tl rows)" for b
    using that by (simp add: nth_tl)
  have "existingDatesFrom h 1 (tl rows) Map.empty k = Some (1 + a + 1)"
  proof (rule existingDatesFrom_last)
    show "a < length (tl rows)" using assms(2) a by simp
    then show "keyOf h (tl rows ! a) = Some k" using assms(3) a nth by simp
    show "\<forall>j'. a < j' \<and> j' < length (tl rows) \<longrightarrow> keyOf h (tl rows ! j') \<noteq> Some k"
    proof (intro allI impI)
      fix j' assume b: "a < j' \<and> j' < length (tl rows)"
      then have "i < Suc j' \<and> Suc j' < length rows" using a by auto
      with assms(4) have "keyOf h (rows ! Suc j') \<noteq> Some k" by blast
      with b nth [of j'] show "keyOf h (tl rows ! j') \<noteq> Some k" by simp
    qed
  qed
  with a show ?thesis by (simp add: existingDatesMap_def)
qed

lemma existingDatesMap_None:
  assumes "existingDatesMap h rows k = None" and "1 \<le> j" and "j < length rows"
  shows "keyOf h (rows ! j) \<noteq> Some k"
proof -
  obtain a where a: "j = Suc a" using assms(2) by (cases j) auto
  with assms(3) have len: "a < length (tl rows)" by simp
  then have "tl rows ! a \<in> set (tl rows)" by (rule nth_mem)
  moreover have "tl rows ! a = rows ! j"
    using len a by (simp add: nth_tl)
  ultimately show ?thesis
    using existingDatesFrom_None [OF assms(1) [unfolded existingDatesMap_def]] by metis
qed

lemma upsertRows_length: "length rows \<le> length (upsertRows h g m es rows)"
proof (induction es arbitrary: rows)
  case Nil
  then show ?case by simp
next
  case (Cons e es)
  obtain k t where e: "e = (k, t)" by (cases e)
  show ?case
  proof (cases "m k")
    case None
    with Cons [of "rows @ [rowData h g k t]"] e show ?thesis by simp
  next
    case (Some n)
    with Cons [of "rows[n - 1 := rowData h g k t]"] e show ?thesis by simp
  qed
qed

lemma upsertRows_untouched:
  assumes "i < length rows"
    and "\<forall>k n. m k = Some n \<longrightarrow> 1 \<le> n"
    and "\<forall>(k, t) \<in> set es. m k \<noteq> Some (i + 1)"
  shows "upsertRows h g m es rows ! i = rows ! i"
  using assms
proof (induction es arbitrary: rows)
  case Nil
  then show ?case by simp
next
  case (Cons e es)
  obtain k t where e: "e = (k, t)" by (cases e)
  from Cons.prems(3) have rest: "\<forall>(k, t) \<in> set es. m k \<noteq> Some (i + 1)" by simp
  show ?case
  proof (cases "m k")
    case None
    have "upsertRows h g m es (rows @ [rowData h g k t]) ! i = (rows @ [rowData h g k t]) ! i"
      using Cons.prems(1,2) rest by (intro Cons.IH) simp_all
    with None e Cons.prems(1) show ?thesis by (simp add: nth_append)
  next
    case (Some n)
    with Cons.prems(2,3) e have "1 \<le> n" and "n \<noteq> i + 1" by auto
    then have ne: "n - 1 \<noteq> i" by simp
    have "upsertRows h g m es (rows[n - 1 := rowData h g k t]) ! i
        = (rows[n - 1 := rowData h g k t]) ! i"
      using Cons.prems(1,2) rest by (intro Cons.IH) simp_all
    with Some e ne show ?thesis by simp
  qed
qed

lemma upsertRows_updated:
  assumes "i < length rows"
    and "\<forall>k n. m k = Some n \<longrightarrow> 1 \<le> n"
    and "(k, t) \<in> set es" and "m k = Some (i + 1)"
    and "\<forall>(k', t') \<in> set es. m k' = Some (i + 1) \<longrightarrow> (k', t') = (k, t)"
  shows "upsertRows h g m es rows ! i = rowData h g k t"
  using assms
proof (induction es arbitrary: rows)
  case Nil
  then show ?case by simp
next
  case (Cons e es)
  obtain k1 t1 where e: "e = (k1, t1)" by (cases e)
  from Cons.prems(5)
  have rest: "\<forall>(k', t') \<in> set es. m k' = Some (i + 1) \<longrightarrow> (k', t') = (k, t)" by simp
  define rows' where "rows' =
    (case m k1 of Some n \<Rightarrow> rows[n - 1 := rowData h g k1 t1]
     | None \<Rightarrow> rows @ [rowData h g k1 t1])"
  have step: "upsertRows h g m (e # es) rows = upsertRows h g m es rows'"
    by (simp add: e rows'_def split: option.splits)
  have len: "i < length rows'"
    using Cons.prems(1) by (simp add: rows'_def split: option.splits)
  show ?case
  proof (cases "(k, t) \<in> set es")
    case True
    then have "upsertRows h g m es rows' ! i = rowData h g k t"
      using len Cons.prems(2,4) rest by (intro Cons.IH) simp_all
    with step show ?thesis by simp
  next
    case False
    with Cons.prems(3) e have same: "k1 = k" "t1 = t" by auto
    from False rest have none: "\<forall>(k', t') \<in> set es. m k' \<noteq> Some (i + 1)" by auto
    have "upsertRows h g m es rows' ! i = rows' ! i"
      using len Cons.prems(2) none by (rule upsertRows_untouched)
    moreover have "rows' ! i = rowData h g k t"
      using Cons.prems(1,4) same by (simp add: rows'_def)
    ultimately show ?thesis using step by simp
  qed
qed

lemma upsertRows_appended:
  assumes "\<forall>k n. m k = Some n \<longrightarrow> 1 \<le> n \<and> n \<le> length rows"
  shows "upsertRows h g m es (rows @ [r]) ! length rows = r"
proof -
  have "\<forall>(k, t) \<in> set es. m k \<noteq> Some (length rows + 1)"
    using assms by fastforce
  then have "upsertRows h g m es (rows @ [r]) ! length rows = (rows @ [r]) ! length rows"
    using assms by (intro upsertRows_untouched) auto
  then show ?thesis by simp
qed

lemma upsertRows_holds_row:
  assumes "\<forall>k n. m k = Some n \<longrightarrow> 1 \<le> n \<and> n \<le> length rows"
    and "\<forall>k k' n. m k = Some n \<and> m k' = Some n \<longrightarrow> k = k'"
    and "distinct (map fst es)" and "(k, t) \<in> set es"
  shows "rowData h g k t \<in> set (upsertRows h g m es rows)"
  using assms
proof (induction es arbitrary: rows)
  case Nil
  then show ?case by simp
next
  case (Cons e es)
  obtain k1 t1 where e: "e = (k1, t1)" by (cases e)
  define rows' where "rows' =
    (case m k1 of Some n \<Rightarrow> rows[n - 1 := rowData h g k1 t1]
     | None \<Rightarrow> rows @ [rowData h g k1 t1])"
  have step: "upsertRows h g m (e # es) rows = upsertRows h g m es rows'"
    by (simp add: e rows'_def split: option.splits)
  have "length rows \<le> length rows'"
    by (simp add: rows'_def split: option.splits)
  with Cons.prems(1)
  have bounds': "\<forall>k n. m k = Some n \<longrightarrow> 1 \<le> n \<and> n \<le> length rows'"
    by (meson le_trans)
  show ?case
  proof (cases "(k, t) \<in> set es")
    case True
    then have "rowData h g k t \<in> set (upsertRows h g m es rows')"
      using bounds' Cons.prems(2,3) by (intro Cons.IH) simp_all
    with step show ?thesis by simp
  next
    case False
    with Cons.prems(4) e have same: "k1 = k" "t1 = t" by auto
    from Cons.prems(3) e same have fresh: "k \<notin> fst ` set es" by simp
    show ?thesis
    proof (cases "m k")
      case None
      then have r: "rows' = rows @ [rowData h g k t]"
        using same by (simp add: rows'_def)
      have "upsertRows h g m es rows' ! length rows = rowData h g k t"
        unfolding r using Cons.prems(1) by (rule upsertRows_appended)
      moreover have "length rows < length (upsertRows h g m es rows')"
        using upsertRows_length [of rows' h g m es] by (simp add: r)
      ultimately show ?thesis using step by (metis nth_mem)
    next
      case (Some n)
      with Cons.prems(1) have n: "1 \<le> n" "n \<le> length rows" by auto
      from Some same have r: "rows' = rows[n - 1 := rowData h g k t]"
        by (simp add: rows'_def)
      have none: "\<forall>(k', t') \<in> set es. m k' \<noteq> Some (n - 1 + 1)"
      proof (clarify)
        fix k' t' assume a: "(k', t') \<in> set es" and b: "m k' = Some (n - 1 + 1)"
        with n Some Cons.prems(2) have "k' = k" by auto
        with a fresh show False by force
      qed
      have "upsertRows h g m es rows' ! (n - 1) = rows' ! (n - 1)"
        using n Cons.prems(1) none by (intro upsertRows_untouched) (auto simp: r)
      then have "upsertRows h g m es rows' ! (n - 1) = rowData h g k t"
        using n by (simp add: r)
      moreover have "n - 1 < length (upsertRows h g m es rows')"
        using upsertRows_length [of rows' h g m es] n by (simp add: r)
      ultimately show ?thesis using step by (metis nth_mem)
    qed
  qed
qed

lemma existingDatesMap_bounds:
  "\<forall>k n. existingDatesMap h rows k = Some n \<longrightarrow> 1 \<le> n \<and> n \<le> length rows"
  using existingDatesMap_Some [of h rows] by fastforce

lemma existingDatesMap_inj:
  "\<forall>k k' n. existingDatesMap h rows k = Some n \<and> existingDatesMap h rows k' = Some n
     \<longrightarrow> k = k'"
  using existingDatesMap_Some [of h rows] by (metis option.inject)

lemma rowData_status:
  assumes "jsSub g t = Num r"
  shows "(0 \<le> r \<longrightarrow> status (rowData h g k t) = Str (''Under Goal (+'' @ magnitudeText h r @ '')'')
              \<and> statusColor (rowData h g k t) = Green)
       \<and> (r < 0 \<longrightarrow> status (rowData h g k t) = Str (''Over Goal (-'' @ magnitudeText h (- r) @ '')'')
              \<and> statusColor (rowData h g k t) = Red)"
  using assms by (auto simp: rowData_def Let_def)

text \<open>
  Claim C6. Let \<open>(k, t)\<close> be a pair of the totals (their keys distinct, as the keys of an
  object are) and let the remaining amount \<open>g - t\<close> be the number \<open>r\<close>. The upsert succeeds
  and the sheet then holds the row of the pair, with total \<open>t\<close> and limit \<open>g\<close>. When
  \<open>0 \<le> r\<close> its status text is \<^verbatim>\<open>Under Goal (+r)\<close> and its status cell green; when \<open>r < 0\<close> the
  text is \<^verbatim>\<open>Over Goal (-x)\<close> with \<open>x\<close> the magnitude of \<open>r\<close>, and the cell red.
\<close>

theorem status_classification:
  assumes "summarySheet ss = Some rows" and "distinct (map fst entries)"
    and "(k, t) \<in> set entries" and "jsSub g t = Num r"
  shows "\<exists>ss' rows'. upsertDailySummary h ss (Some entries) g = Inr ss'
      \<and> summarySheet ss' = Some rows' \<and> rowData h g k t \<in> set rows'
      \<and> totalIn (rowData h g k t) = Number t \<and> maxLimit (rowData h g k t) = Number g
      \<and> (0 \<le> r \<longrightarrow>
           status (rowData h g k t) = Str (''Under Goal (+'' @ magnitudeText h r @ '')'')
           \<and> statusColor (rowData h g k t) = Green)
      \<and> (r < 0 \<longrightarrow>
           status (rowData h g k t) = Str (''Over Goal (-'' @ magnitudeText h (- r) @ '')'')
           \<and> statusColor (rowData h g k t) = Red)"
proof -
  have "rowData h g k t \<in> set (upsertRows h g (existingDatesMap h rows) entries rows)"
    using existingDatesMap_bounds existingDatesMap_inj assms(2,3)
    by (rule upsertRows_holds_row)
  moreover have "totalIn (rowData h g k t) = Number t \<and> maxLimit (rowData h g k t) = Number g"
    by (simp add: rowData_def Let_def)
  ultimately show ?thesis
    using assms(1) rowData_status [OF assms(4), of h k]
    by (simp add: upsertDailySummary_def)
qed

theorem status_classification_witness:
  "status (rowData utcPlus7 (Num 2056) (civilDay 2024 1 15) (Num 1600)) = Str ''Under Goal (+456)''
   \<and> statusColor (rowData utcPlus7 (Num 2056) (civilDay 2024 1 15) (Num 1600)) = Green
   \<and> status (rowData utcPlus7 (Num 2056) (civilDay 2024 1 15) (Num 2056)) = Str ''Under Goal (+0)''
   \<and> statusColor (rowData utcPlus7 (Num 2056) (civilDay 2024 1 15) (Num 2056)) = Green
   \<and> status (rowData utcPlus7 (Num 2056) (civilDay 2024 1 15) (Num 2057)) = Str ''Over Goal (-1)''
   \<and> statusColor (rowData utcPlus7 (Num 2056) (civilDay 2024 1 15) (Num 2057)) = Red"
proof -
  have sheet: "summarySheet (sampleSpreadsheet utcPlus7) = Some [summaryHeader]"
    by (simp add: sampleSpreadsheet_def)
  have d: "distinct (map fst [(civilDay 2024 1 15, t)])" for t :: jsnum by simp
  have m: "(civilDay 2024 1 15, t) \<in> set [(civilDay 2024 1 15, t)]" for t :: jsnum by simp
  have r1: "jsSub (Num 2056) (Num 1600) = Num 456"
    and r2: "jsSub (Num 2056) (Num 2056) = Num 0"
    and r3: "jsSub (Num 2056) (Num 2057) = Num (- 1)" by simp_all
  have t1: "magnitudeText utcPlus7 456 = ''456''"
    and t2: "magnitudeText utcPlus7 0 = ''0''"
    and t3: "magnitudeText utcPlus7 (- (- 1)) = ''1''" by code_simp+
  from status_classification [OF sheet d m r1, of utcPlus7]
    status_classification [OF sheet d m r2, of utcPlus7]
    status_classification [OF sheet d m r3, of utcPlus7] t1 t2 t3
  show ?thesis by auto
qed

text \<open>
  Claim C5 as stated fails: a row whose date has no Log entry is not rewritten. The
  book holds summary rows of 2024-01-10 and 2024-01-15 with the limit 2000, and Log
  entries of 2024-01-15 only; the parameters now give 2056. After the edit of H3 the row
  of 2024-01-15 carries the limit 2056, the row of 2024-01-10 still the limit 2000 and
  its old status.
\<close>

theorem stale_row_keeps_old_limit:
  "getMaxCaloriesFromDashboard utcPlus7 staleBook = Inr (Num 2056)
   \<and> summarySheet staleBook
       = Some [summaryHeader, staleRow,
               rowData utcPlus7 (Num 2000) (civilDay 2024 1 15) (Num 1600)]
   \<and> summarySheet (onEdit utcPlus7 (Some (''Dashboard'', ''H3'')) staleBook)
       = Some [summaryHeader, staleRow,
               rowData utcPlus7 (Num 2056) (civilDay 2024 1 15) (Num 1600)]
   \<and> maxLimit staleRow = Number (Num 2000)
   \<and> status staleRow = Str ''Under Goal (+500)''"
  by code_simp

text \<open>
  Claim C5, amended. After an edit of one of the cells H2 to H7 of the Dashboard, with
  parameters that validate to the limit \<open>g\<close> and at least one row below the header of the
  Log sheet, consider row \<open>i\<close> below the header of the Daily Summary sheet. When its date
  reads as a key \<open>k\<close> of the totals and no later row reads as the same key, the row is
  rewritten as the row of \<open>k\<close>, its total and the new limit \<open>g\<close>. When its date is no key of
  the totals (no counted Log row has that date), the row stays as it was.
\<close>

theorem profile_change_rewrites_rows_with_entries:
  assumes "editedCell \<in> set metricsRange"
    and "getMaxCaloriesFromDashboard h ss = Inr g"
    and "logSheet ss = Some (header # entries)" and "entries \<noteq> []"
    and "summarySheet ss = Some rows"
    and "1 \<le> i" and "i < length rows"
  shows "\<exists>rows'. summarySheet (onEdit h (Some (''Dashboard'', editedCell)) ss) = Some rows'
      \<and> (\<forall>k. keyOf h (rows ! i) = Some k \<and> k \<in> fst ` set (aggregate h entries)
              \<and> (\<forall>j. i < j \<and> j < length rows \<longrightarrow> keyOf h (rows ! j) \<noteq> Some k) \<longrightarrow>
            rows' ! i = rowData h g k (totalOf (aggregate h entries) k))
      \<and> ((\<forall>k. keyOf h (rows ! i) = Some k \<longrightarrow> k \<notin> fst ` set (aggregate h entries)) \<longrightarrow>
            rows' ! i = rows ! i)"
proof -
  let ?m = "existingDatesMap h rows"
  let ?es = "aggregate h entries"
  let ?rows' = "upsertRows h g ?m ?es rows"
  have tot: "computeDailyTotalsFromLog h ss = Inr (Some ?es)"
    using assms(3,4) by (cases entries) (simp_all add: computeDailyTotalsFromLog_def)
  have "recalculateAll h ss
      = Inr (updateDashboardTodayView h (ss\<lparr>summarySheet := Some ?rows'\<rparr>))"
    using assms(2,5) tot by (simp add: recalculateAll_def upsertDailySummary_def)
  then have sheet: "summarySheet (onEdit h (Some (''Dashboard'', editedCell)) ss) = Some ?rows'"
    using assms(1) by (simp add: onEdit_def)
  have lower: "\<forall>k n. ?m k = Some n \<longrightarrow> 1 \<le> n"
    using existingDatesMap_bounds [of h rows] by blast
  have rewritten: "?rows' ! i = rowData h g k (totalOf ?es k)"
    if key: "keyOf h (rows ! i) = Some k" and mem: "k \<in> fst ` set ?es"
      and last: "\<forall>j. i < j \<and> j < length rows \<longrightarrow> keyOf h (rows ! j) \<noteq> Some k" for k
  proof -
    have m: "?m k = Some (i + 1)"
      using assms(6,7) key last by (rule existingDatesMap_last)
    from mem obtain t where t: "(k, t) \<in> set ?es" by auto
    with aggregate_distinct [of h entries] have "map_of ?es k = Some t" by simp
    then have tt: "totalOf ?es k = t" by (simp add: totalOf_def)
    have uniq: "\<forall>(k', t') \<in> set ?es. ?m k' = Some (i + 1) \<longrightarrow> (k', t') = (k, t)"
    proof (clarify)
      fix k' t' assume a: "(k', t') \<in> set ?es" and b: "?m k' = Some (i + 1)"
      from b m existingDatesMap_inj [of h rows] have k': "k' = k" by blast
      with a t aggregate_distinct [of h entries] have "t' = t"
        by (metis map_of_is_SomeI option.inject)
      with k' show "k' = k \<and> t' = t" by simp
    qed
    show ?thesis
      unfolding tt using assms(7) lower t m uniq by (rule upsertRows_updated)
  qed
  have kept: "?rows' ! i = rows ! i"
    if none: "\<forall>k. keyOf h (rows ! i) = Some k \<longrightarrow> k \<notin> fst ` set ?es"
  proof -
    have "\<forall>(k, t) \<in> set ?es. ?m k \<noteq> Some (i + 1)"
    proof (clarify)
      fix k t assume a: "(k, t) \<in> set ?es" and b: "?m k = Some (i + 1)"
      from existingDatesMap_Some [OF b] have "keyOf h (rows ! i) = Some k" by simp
      with none a show False by force
    qed
    with assms(7) lower show ?thesis by (rule upsertRows_untouched)
  qed
  from sheet rewritten kept show ?thesis by blast
qed

theorem profile_change_rewrites_rows_with_entries_witness:
  "\<exists>rows'. summarySheet (onEdit utcPlus7 (Some (''Dashboard'', ''H3'')) staleBook) = Some rows'
     \<and> rows' ! 2 = rowData utcPlus7 (Num 2056) (civilDay 2024 1 15) (Num 1600)
     \<and> rows' ! 1 = staleRow"
proof -
  let ?entries = "[logEntry (DateV (localMidnight utcPlus7 2024 1 15)) (Number (Num 350)),
        logEntry (DateV (localMidnight utcPlus7 2024 1 15)) (Number (Num 450)),
        logEntry (DateV (localMidnight utcPlus7 2024 1 15)) (Number (Num 600)),
        logEntry (DateV (localMidnight utcPlus7 2024 1 15)) (Number (Num 200))]"
  let ?rows = "[summaryHeader, staleRow,
               rowData utcPlus7 (Num 2000) (civilDay 2024 1 15) (Num 1600)]"
  have c: "''H3'' \<in> set metricsRange" by (simp add: metricsRange_def)
  have g: "getMaxCaloriesFromDashboard utcPlus7 staleBook = Inr (Num 2056)" by code_simp
  have l: "logSheet staleBook = Some (logHeader # ?entries)"
    by (simp add: staleBook_def sampleSpreadsheet_def)
  have ne: "?entries \<noteq> []" by simp
  have sh: "summarySheet staleBook = Some ?rows" by (simp add: staleBook_def)
  have agg: "aggregate utcPlus7 ?entries = [(civilDay 2024 1 15, Num 1600)]" by code_simp
  have k2: "keyOf utcPlus7 (?rows ! 2) = Some (civilDay 2024 1 15)" by code_simp
  have k1: "keyOf utcPlus7 (?rows ! 1) = Some (civilDay 2024 1 10)" by code_simp
  have neq: "civilDay 2024 1 10 \<noteq> civilDay 2024 1 15" by code_simp
  from profile_change_rewrites_rows_with_entries [OF c g l ne sh, of 2]
  obtain rows' where a: "summarySheet (onEdit utcPlus7 (Some (''Dashboard'', ''H3'')) staleBook)
      = Some rows'"
    and b: "rows' ! 2 = rowData utcPlus7 (Num 2056) (civilDay 2024 1 15)
      (totalOf (aggregate utcPlus7 ?entries) (civilDay 2024 1 15))"
    using k2 agg by auto
  from profile_change_rewrites_rows_with_entries [OF c g l ne sh, of 1] a
  have "rows' ! 1 = ?rows ! 1"
    using k1 agg neq by auto
  with a b agg show ?thesis by (simp add: totalOf_def)
qed

subsection \<open>Running the upsert again\<close>

lemma keyOf_rowData:
  assumes "0 \<le> scriptTimeZone h" and "scriptTimeZone h < msPerDay"
  shows "keyOf h (rowData h g k t) = Some k"
  using formatDate_dateOfKey [OF assms] by (simp add: keyOf_def rowData_def Let_def)

lemma upsertRows_keys:
  assumes "0 \<le> scriptTimeZone h" and "scriptTimeZone h < msPerDay"
    and "\<forall>k n. m k = Some n \<longrightarrow> 1 \<le> n \<and> n \<le> length rows \<and> keyOf h (rows ! (n - 1)) = Some k"
  shows "map (keyOf h) (upsertRows h g m es rows)
       = map (keyOf h) rows @ map Some (filter (\<lambda>k. m k = None) (map fst es))"
  using assms(3)
proof (induction es arbitrary: rows)
  case Nil
  then show ?case by simp
next
  case (Cons e es)
  obtain k t where e: "e = (k, t)" by (cases e)
  note rd = keyOf_rowData [OF assms(1,2), of g k t]
  show ?case
  proof (cases "m k")
    case None
    let ?rows' = "rows @ [rowData h g k t]"
    have inv: "\<forall>k n. m k = Some n \<longrightarrow>
        1 \<le> n \<and> n \<le> length ?rows' \<and> keyOf h (?rows' ! (n - 1)) = Some k"
    proof (intro allI impI)
      fix k' n assume "m k' = Some n"
      with Cons.prems have "1 \<le> n \<and> n \<le> length rows \<and> keyOf h (rows ! (n - 1)) = Some k'"
        by blast
      then show "1 \<le> n \<and> n \<le> length ?rows' \<and> keyOf h (?rows' ! (n - 1)) = Some k'"
        by (auto simp: nth_append)
    qed
    from Cons.IH [OF inv] None e rd show ?thesis by simp
  next
    case (Some n)
    let ?rows' = "rows[n - 1 := rowData h g k t]"
    from Some Cons.prems have n: "1 \<le> n" "n \<le> length rows" "keyOf h (rows ! (n - 1)) = Some k"
      by auto
    have same: "map (keyOf h) ?rows' = map (keyOf h) rows"
      using n rd by (simp add: map_update list_update_same_conv)
    have inv: "\<forall>k n. m k = Some n \<longrightarrow>
        1 \<le> n \<and> n \<le> length ?rows' \<and> keyOf h (?rows' ! (n - 1)) = Some k"
    proof (intro allI impI)
      fix k' n' assume "m k' = Some n'"
      with Cons.prems
      have a: "1 \<le> n' \<and> n' \<le> length rows \<and> keyOf h (rows ! (n' - 1)) = Some k'"
        by blast
      then have lt: "n' - 1 < length rows" by auto
      then have "n' - 1 < length ?rows'" by simp
      then have "keyOf h (?rows' ! (n' - 1)) = map (keyOf h) ?rows' ! (n' - 1)"
        by (rule nth_map [symmetric])
      also have "\<dots> = map (keyOf h) rows ! (n' - 1)"
        by (simp only: same)
      also have "\<dots> = keyOf h (rows ! (n' - 1))"
        using lt by (rule nth_map)
      finally show "1 \<le> n' \<and> n' \<le> length ?rows' \<and> keyOf h (?rows' ! (n' - 1)) = Some k'"
        using a by simp
    qed
    from Cons.IH [OF inv] Some e same show ?thesis by simp
  qed
qed

lemma upsertRows_new_rows:
  assumes "\<forall>k n. m k = Some n \<longrightarrow> 1 \<le> n \<and> n \<le> length rows"
  shows "drop (length rows) (upsertRows h g m es rows)
       = map (\<lambda>(k, t). rowData h g k t) (filter (\<lambda>(k, t). m k = None) es)"
  using assms
proof (induction es arbitrary: rows)
  case Nil
  then show ?case by simp
next
  case (Cons e es)
  obtain k t where e: "e = (k, t)" by (cases e)
  show ?case
  proof (cases "m k")
    case None
    let ?rows' = "rows @ [rowData h g k t]"
    let ?res = "upsertRows h g m es ?rows'"
    have bounds': "\<forall>k n. m k = Some n \<longrightarrow> 1 \<le> n \<and> n \<le> length ?rows'"
      using Cons.prems by (simp add: le_SucI)
    have tail: "drop (Suc (length rows)) ?res
        = map (\<lambda>(k, t). rowData h g k t) (filter (\<lambda>(k, t). m k = None) es)"
      using Cons.IH [OF bounds'] by simp
    have at: "?res ! length rows = rowData h g k t"
      using Cons.prems by (rule upsertRows_appended)
    have "length rows < length ?res"
      using upsertRows_length [of ?rows' h g m es] by simp
    then have "drop (length rows) ?res = ?res ! length rows # drop (Suc (length rows)) ?res"
      by (simp add: Cons_nth_drop_Suc)
    with tail at None e show ?thesis by simp
  next
    case (Some n)
    have "\<forall>k' n'. m k' = Some n' \<longrightarrow>
        1 \<le> n' \<and> n' \<le> length (rows[n - 1 := rowData h g k t])"
      using Cons.prems by simp
    from Cons.IH [OF this] Some e show ?thesis by simp
  qed
qed

lemma upsertRows_fixed:
  assumes "\<forall>(k, t) \<in> set es. \<exists>n. m k = Some n \<and> 1 \<le> n \<and> n \<le> length rows
             \<and> rows ! (n - 1) = rowData h g k t"
  shows "upsertRows h g m es rows = rows"
  using assms
proof (induction es)
  case Nil
  then show ?case by simp
next
  case (Cons e es)
  obtain k t where e: "e = (k, t)" by (cases e)
  with Cons.prems obtain n where n: "m k = Some n" "1 \<le> n" "n \<le> length rows"
      "rows ! (n - 1) = rowData h g k t"
    by auto
  then have same: "rows[n - 1 := rowData h g k t] = rows"
    by (metis list_update_id)
  from Cons.prems have "\<forall>(k, t) \<in> set es. \<exists>n. m k = Some n \<and> 1 \<le> n \<and> n \<le> length rows
      \<and> rows ! (n - 1) = rowData h g k t"
    by simp
  then have fixed: "upsertRows h g m es rows = rows" by (rule Cons.IH)
  have "upsertRows h g m (e # es) rows
      = upsertRows h g m es (rows[n - 1 := rowData h g k t])"
    by (simp add: e n(1))
  also have "\<dots> = upsertRows h g m es rows" by (simp only: same)
  finally show ?case using fixed by simp
qed

text \<open>
  East of Greenwich a date key survives the round trip through the date cell, and the
  upsert is idempotent on a sheet that has its header row: run again with the same
  totals and limit on its own output, it changes nothing.
\<close>

lemma upsertRows_idempotent:
  assumes tz: "0 \<le> scriptTimeZone h" "scriptTimeZone h < msPerDay"
    and header: "rows \<noteq> []" and dist: "distinct (map fst es)"
  shows "upsertRows h g (existingDatesMap h (upsertRows h g (existingDatesMap h rows) es rows)) es
           (upsertRows h g (existingDatesMap h rows) es rows)
       = upsertRows h g (existingDatesMap h rows) es rows"
proof -
  let ?m = "existingDatesMap h rows"
  let ?rows1 = "upsertRows h g ?m es rows"
  let ?new = "filter (\<lambda>(k, t). ?m k = None) es"
  have bounds: "\<forall>k n. ?m k = Some n \<longrightarrow> 1 \<le> n \<and> n \<le> length rows"
    by (rule existingDatesMap_bounds)
  have inv: "\<forall>k n. ?m k = Some n \<longrightarrow>
      1 \<le> n \<and> n \<le> length rows \<and> keyOf h (rows ! (n - 1)) = Some k"
    using existingDatesMap_Some [of h rows] by fastforce
  have keys: "map (keyOf h) ?rows1
      = map (keyOf h) rows @ map Some (filter (\<lambda>k. ?m k = None) (map fst es))"
    using tz inv by (rule upsertRows_keys)
  have newkeys: "filter (\<lambda>k. ?m k = None) (map fst es) = map fst ?new"
    by (induction es) auto
  have new: "drop (length rows) ?rows1 = map (\<lambda>(k, t). rowData h g k t) ?new"
    using bounds by (rule upsertRows_new_rows)
  have len: "length ?rows1 = length rows + length ?new"
    using keys newkeys by (metis length_append length_map)
  have key_old: "keyOf h (?rows1 ! j) = keyOf h (rows ! j)" if "j < length rows" for j
  proof -
    have "keyOf h (?rows1 ! j) = map (keyOf h) ?rows1 ! j"
      using that len by simp
    also have "\<dots> = keyOf h (rows ! j)"
      using that by (simp add: keys nth_append)
    finally show ?thesis .
  qed
  have key_new: "keyOf h (?rows1 ! (length rows + p)) = Some (fst (?new ! p))"
    if "p < length ?new" for p
  proof -
    have "keyOf h (?rows1 ! (length rows + p)) = map (keyOf h) ?rows1 ! (length rows + p)"
      using that len by simp
    also have "\<dots> = Some (fst (?new ! p))"
      using that by (simp add: keys newkeys nth_append)
    finally show ?thesis .
  qed
  have row_new: "?rows1 ! (length rows + p) = (\<lambda>(k, t). rowData h g k t) (?new ! p)"
    if "p < length ?new" for p
  proof -
    have "?rows1 ! (length rows + p) = drop (length rows) ?rows1 ! p"
      using that len by simp
    then show ?thesis using that by (simp add: new)
  qed
  have dnew: "distinct (map fst ?new)"
    using dist by (simp add: newkeys [symmetric] distinct_filter)
  have found: "\<exists>n. existingDatesMap h ?rows1 k = Some n \<and> 1 \<le> n \<and> n \<le> length ?rows1
      \<and> ?rows1 ! (n - 1) = rowData h g k t" if mem: "(k, t) \<in> set es" for k t
  proof (cases "?m k")
    case (Some n)
    from existingDatesMap_Some [OF Some]
    have n: "2 \<le> n" "n \<le> length rows" "keyOf h (rows ! (n - 1)) = Some k"
      and last: "\<forall>j. n - 1 < j \<and> j < length rows \<longrightarrow> keyOf h (rows ! j) \<noteq> Some k"
      by auto
    have later: "\<forall>j. n - 1 < j \<and> j < length ?rows1 \<longrightarrow> keyOf h (?rows1 ! j) \<noteq> Some k"
    proof (intro allI impI)
      fix j assume j: "n - 1 < j \<and> j < length ?rows1"
      show "keyOf h (?rows1 ! j) \<noteq> Some k"
      proof (cases "j < length rows")
        case True
        with j last key_old [of j] show ?thesis by simp
      next
        case False
        define p where "p = j - length rows"
        with False j len have p: "p < length ?new" "j = length rows + p" by auto
        obtain k' t' where kt: "?new ! p = (k', t')" by (cases "?new ! p")
        from p(1) have "?new ! p \<in> set ?new" by (rule nth_mem)
        with kt have "(k', t') \<in> set ?new" by simp
        then have "?m k' = None" by simp
        with Some kt have "fst (?new ! p) \<noteq> k" by auto
        with key_new [OF p(1)] p(2) show ?thesis by simp
      qed
    qed
    have "existingDatesMap h ?rows1 k = Some (n - 1 + 1)"
    proof (rule existingDatesMap_last)
      show "1 \<le> n - 1" using n by simp
      show "n - 1 < length ?rows1" using n len by simp
      show "keyOf h (?rows1 ! (n - 1)) = Some k" using n key_old [of "n - 1"] by simp
      show "\<forall>j. n - 1 < j \<and> j < length ?rows1 \<longrightarrow> keyOf h (?rows1 ! j) \<noteq> Some k"
        by (rule later)
    qed
    moreover have "?rows1 ! (n - 1) = rowData h g k t"
    proof (rule upsertRows_updated)
      show "n - 1 < length rows" using n by simp
      show "\<forall>k n. ?m k = Some n \<longrightarrow> 1 \<le> n" using bounds by blast
      show "(k, t) \<in> set es" by (rule mem)
      show "?m k = Some (n - 1 + 1)" using Some n by simp
      show "\<forall>(k', t') \<in> set es. ?m k' = Some (n - 1 + 1) \<longrightarrow> (k', t') = (k, t)"
      proof (clarify)
        fix k' t' assume a: "(k', t') \<in> set es" and b: "?m k' = Some (n - 1 + 1)"
        with n Some existingDatesMap_inj [of h rows] have k': "k' = k" by auto
        with a mem dist have "t' = t"
          by (metis map_of_is_SomeI option.inject)
        with k' show "k' = k \<and> t' = t" by simp
      qed
    qed
    ultimately show ?thesis using n len by auto
  next
    case None
    with mem have "(k, t) \<in> set ?new" by simp
    then obtain p where p: "p < length ?new" "?new ! p = (k, t)"
      by (metis in_set_conv_nth)
    let ?i = "length rows + p"
    have later: "\<forall>j. ?i < j \<and> j < length ?rows1 \<longrightarrow> keyOf h (?rows1 ! j) \<noteq> Some k"
    proof (intro allI impI)
      fix j assume j: "?i < j \<and> j < length ?rows1"
      define q where "q = j - length rows"
      with j len have q: "q < length ?new" "j = length rows + q" "p \<noteq> q" by auto
      have "q < length (map fst ?new)" and "p < length (map fst ?new)"
        using q(1) p(1) by simp_all
      with dnew q(3) have "map fst ?new ! q \<noteq> map fst ?new ! p"
        by (metis nth_eq_iff_index_eq)
      with q(1) p have "fst (?new ! q) \<noteq> k" by simp
      with key_new [OF q(1)] q(2) show "keyOf h (?rows1 ! j) \<noteq> Some k" by simp
    qed
    have "existingDatesMap h ?rows1 k = Some (?i + 1)"
    proof (rule existingDatesMap_last)
      show "1 \<le> ?i" using header by (cases rows) simp_all
      show "?i < length ?rows1" using p len by simp
      show "keyOf h (?rows1 ! ?i) = Some k" using key_new [OF p(1)] p(2) by simp
      show "\<forall>j. ?i < j \<and> j < length ?rows1 \<longrightarrow> keyOf h (?rows1 ! j) \<noteq> Some k"
        by (rule later)
    qed
    moreover have "?rows1 ! ?i = rowData h g k t"
      using row_new [OF p(1)] p(2) by simp
    ultimately show ?thesis using p len by auto
  qed
  show ?thesis
    by (rule upsertRows_fixed) (use found in blast)
qed

section \<open>The refresh and the web endpoint\<close>

text \<open>
  Claim C4, on the code. Whatever error the steps of the refresh throw (a missing
  Dashboard, Log or Daily Summary sheet, parameters that do not validate, the
  \<^verbatim>\<open>TypeError\<close> on an empty Log), \<^verbatim>\<open>refreshCaloryDiary\<close> catches it, writes it to the
  execution log and returns normally with the book unchanged; the web endpoint then
  answers the action \<^verbatim>\<open>refresh\<close> with \<^verbatim>\<open>success: true\<close> and the message that the diary was
  refreshed. The failure reply of \<^verbatim>\<open>doGet\<close> is never reached from the refresh.
\<close>

theorem refresh_failure_is_reported_as_success:
  assumes "refreshSteps h ss = Inl e"
  shows "refreshCaloryDiary h ss = ss
    \<and> doGet h (Some ''refresh'') ss
        = (\<lparr>success = True, replyText = ''Calory diary refreshed successfully'',
            caught = None\<rparr>, ss)"
proof -
  have name: "toLowerCase ''refresh'' = ''refresh''"
    by code_simp
  have "refreshCaloryDiary h ss = ss"
    using assms by (simp add: refreshCaloryDiary_def)
  then show ?thesis
    by (simp add: doGet_def name)
qed

theorem refresh_failure_is_reported_as_success_witness:
  "refreshSteps utcPlus7 noDashboardBook = Inl DashboardNotFound
   \<and> doGet utcPlus7 (Some ''refresh'') noDashboardBook
       = (\<lparr>success = True, replyText = ''Calory diary refreshed successfully'',
           caught = None\<rparr>, noDashboardBook)"
proof -
  have a: "refreshSteps utcPlus7 noDashboardBook = Inl DashboardNotFound"
    by code_simp
  from refresh_failure_is_reported_as_success [OF a] a show ?thesis by simp
qed

text \<open>
  Claim C1, evaluated on the code. In a script time zone west of Greenwich (UTC-5) the
  refresh of the sample book writes the row of 2024-01-15 below the header. Its date
  cell is \<^verbatim>\<open>new Date("2024-01-15")\<close>, midnight UTC, which the script's zone formats as
  2024-01-14. The second refresh over the same entries and parameters therefore finds
  no row of 2024-01-15 and appends the row again.
\<close>

theorem second_refresh_appends_duplicate_west_of_utc:
  "summarySheet (refreshCaloryDiary utcMinus5 (sampleSpreadsheet utcMinus5))
     = Some [summaryHeader,
             rowData utcMinus5 (Num 2056) (civilDay 2024 1 15) (Num 1600)]
   \<and> summarySheet (refreshCaloryDiary utcMinus5
        (refreshCaloryDiary utcMinus5 (sampleSpreadsheet utcMinus5)))
     = Some [summaryHeader,
             rowData utcMinus5 (Num 2056) (civilDay 2024 1 15) (Num 1600),
             rowData utcMinus5 (Num 2056) (civilDay 2024 1 15) (Num 1600)]
   \<and> keyOf utcMinus5 (rowData utcMinus5 (Num 2056) (civilDay 2024 1 15) (Num 1600))
     = Some (civilDay 2024 1 14)
   \<and> logSheet (refreshCaloryDiary utcMinus5 (sampleSpreadsheet utcMinus5))
     = logSheet (sampleSpreadsheet utcMinus5)
   \<and> getMaxCaloriesFromDashboard utcMinus5
        (refreshCaloryDiary utcMinus5 (sampleSpreadsheet utcMinus5)) = Inr (Num 2056)"
  by code_simp

theorem second_refresh_appends_duplicate_west_of_utc_witness:
  "summarySheet (refreshCaloryDiary utcMinus5
        (refreshCaloryDiary utcMinus5 (sampleSpreadsheet utcMinus5)))
     = Some [summaryHeader,
             rowData utcMinus5 (Num 2056) (civilDay 2024 1 15) (Num 1600),
             rowData utcMinus5 (Num 2056) (civilDay 2024 1 15) (Num 1600)]"
  using second_refresh_appends_duplicate_west_of_utc by blast

text \<open>
  With a script time zone from UTC up to, but not including, UTC+24h and a Daily
  Summary sheet that has its header row, a second refresh leaves the summary rows as
  the first refresh left them.
\<close>

lemma maxCaloriesOf_tracker:
  "maxCaloriesOf h (d\<lparr>dateInputCell := a, totalConsumedCell := b, maxLimitCell := c,
       statusCell := e, statusMarker := f\<rparr>) = maxCaloriesOf h d"
  by (simp add: maxCaloriesOf_def tdeeOf_def bmrOf_def genderIsMale_def)

lemma getMax_todayView:
  "getMaxCaloriesFromDashboard h (updateDashboardTodayView h ss)
     = getMaxCaloriesFromDashboard h ss"
proof (cases "dashboardSheet ss")
  case None
  then show ?thesis by (simp add: updateDashboardTodayView_def)
next
  case (Some d)
  have "getMaxCaloriesFromDashboard h
      (ss\<lparr>dashboardSheet := Some (d\<lparr>dateInputCell := a, totalConsumedCell := b,
         maxLimitCell := c, statusCell := e, statusMarker := f\<rparr>)\<rparr>)
      = getMaxCaloriesFromDashboard h ss" for a b c e f
    using Some by (simp add: getMaxCaloriesFromDashboard_def maxCaloriesOf_tracker)
  then show ?thesis
    using Some by (simp add: updateDashboardTodayView_def split: option.splits sum.splits)
qed

lemma refresh_twice_east_of_utc:
  assumes "0 \<le> scriptTimeZone h" and "scriptTimeZone h < msPerDay"
    and "summarySheet ss = Some rows" and "rows \<noteq> []"
  shows "summarySheet (refreshCaloryDiary h (refreshCaloryDiary h ss))
       = summarySheet (refreshCaloryDiary h ss)"
proof (cases "refreshSteps h ss")
  case (Inl e)
  then show ?thesis by (simp add: refreshCaloryDiary_def)
next
  case (Inr ss1)
  then obtain g es where g: "getMaxCaloriesFromDashboard h ss = Inr g"
    and es: "computeDailyTotalsFromLog h ss = Inr (Some es)"
    by (auto simp: refreshSteps_def split: sum.splits option.splits)
  let ?rows1 = "upsertRows h g (existingDatesMap h rows) es rows"
  have ss1: "ss1 = updateDashboardTodayView h (ss\<lparr>summarySheet := Some ?rows1\<rparr>)"
    using Inr g es assms(3) by (simp add: refreshSteps_def upsertDailySummary_def)
  have first: "refreshCaloryDiary h ss = ss1"
    using Inr by (simp add: refreshCaloryDiary_def)
  have dist: "distinct (map fst es)"
    using es aggregate_distinct [of h]
    by (auto simp: computeDailyTotalsFromLog_def split: option.splits if_splits)
  have g1: "getMaxCaloriesFromDashboard h ss1 = Inr g"
    using g by (simp add: ss1 getMax_todayView) (simp add: getMaxCaloriesFromDashboard_def)
  have es1: "computeDailyTotalsFromLog h ss1 = Inr (Some es)"
    using es by (simp add: ss1 computeDailyTotalsFromLog_def)
  have sheet1: "summarySheet ss1 = Some ?rows1"
    by (simp add: ss1)
  have "upsertRows h g (existingDatesMap h ?rows1) es ?rows1 = ?rows1"
    using assms(1,2,4) dist by (rule upsertRows_idempotent)
  then have "summarySheet (refreshCaloryDiary h ss1) = Some ?rows1"
    using g1 es1 sheet1
    by (simp add: refreshCaloryDiary_def refreshSteps_def upsertDailySummary_def)
  with first sheet1 show ?thesis by simp
qed

text \<open>On a Daily Summary sheet without any row the first new row lands in row 1, which
  the next run takes for the header: the row is appended once more, in any zone.\<close>

lemma headerless_sheet_appends_duplicate:
  "upsertRows utcPlus7 (Num 2056) (existingDatesMap utcPlus7 [])
      [(civilDay 2024 1 15, Num 1600)] []
     = [rowData utcPlus7 (Num 2056) (civilDay 2024 1 15) (Num 1600)]
   \<and> upsertRows utcPlus7 (Num 2056)
      (existingDatesMap utcPlus7 [rowData utcPlus7 (Num 2056) (civilDay 2024 1 15) (Num 1600)])
      [(civilDay 2024 1 15, Num 1600)]
      [rowData utcPlus7 (Num 2056) (civilDay 2024 1 15) (Num 1600)]
     = [rowData utcPlus7 (Num 2056) (civilDay 2024 1 15) (Num 1600),
        rowData utcPlus7 (Num 2056) (civilDay 2024 1 15) (Num 1600)]"
  by (simp add: existingDatesMap_def)

end
